theory Spec2Isabelle
  imports Complex_Main
begin

section \<open>Numbers, vectors and entities\<close>

text \<open>
  The game engine (the \<open>GameEngine\<close> component with levelling, snakes and the healing
  stream) is embedded function by function.  A TypeScript \<open>number\<close> is modelled as a
  \<open>real\<close>: \<open>Math.sqrt\<close>, \<open>Math.sin\<close>, \<open>Math.cos\<close> and \<open>Math.floor\<close> are the real
  functions, rounding, \<open>NaN\<close> and the infinities are outside the model.  The ambient
  sources \<open>Math.random()\<close> and \<open>Date.now()\<close> are explicit inputs.
\<close>

record Vec2 =
  x_of :: real
  y_of :: real

datatype EntityType = PLAYER | FRIEND | SNAKE | TREE | ROCK | STREAM

record Entity =
  id_of :: string
  pos :: Vec2
  velocity :: Vec2
  rotation :: real
  radius :: real
  type_of :: EntityType
  hp :: real
  maxHp :: real
  isAttacking :: bool
  attackCooldown :: real
  walkCycle :: real
  color :: string
  level :: "real option"
  xp :: "real option"
  maxXp :: "real option"

record GameState =
  player :: Entity
  friend :: "Entity option"
  enemies :: "Entity list"
  environment :: "Entity list"
  score :: real
  gameOver :: bool
  camera :: Vec2

definition CANVAS_WIDTH :: real where "CANVAS_WIDTH = 2500"
definition CANVAS_HEIGHT :: real where "CANVAS_HEIGHT = 2500"
definition SPAWN_ZONE_CENTER :: Vec2 where "SPAWN_ZONE_CENTER = \<lparr>x_of = 1250, y_of = 1250\<rparr>"
definition SPAWN_ZONE_RADIUS :: real where "SPAWN_ZONE_RADIUS = 300"

text \<open>\<open>dist\<close>, \<open>lerp\<close> and \<open>seededRandom\<close> of the source.  The post-increment in
  \<open>Math.sin(seed++)\<close> passes the old value and only changes the local parameter.\<close>

definition dist_vec :: "Vec2 \<Rightarrow> Vec2 \<Rightarrow> real" where
  "dist_vec a b = sqrt ((x_of a - x_of b)\<^sup>2 + (y_of a - y_of b)\<^sup>2)"

definition lerp :: "real \<Rightarrow> real \<Rightarrow> real \<Rightarrow> real" where
  "lerp start end_v t = start * (1 - t) + end_v * t"

definition seededRandom :: "real \<Rightarrow> real" where
  "seededRandom seed = (let x = sin seed * 10000 in x - of_int \<lfloor>x\<rfloor>)"

text \<open>\<open>Math.atan2(y, x)\<close>: the angle of the point \<open>(x, y)\<close>, in \<open>(-\<pi>, \<pi>]\<close>, and 0 at the
  origin.\<close>

definition atan2 :: "real \<Rightarrow> real \<Rightarrow> real" where
  "atan2 y x =
     (if 0 < x then arctan (y / x)
      else if x < 0 then (if 0 \<le> y then arctan (y / x) + pi else arctan (y / x) - pi)
      else if 0 < y then pi / 2
      else if y < 0 then - (pi / 2)
      else 0)"

text \<open>The \<open>||\<close> default of an optional numeric field: \<open>undefined\<close> and \<open>0\<close> are falsy.\<close>

definition orElse :: "real option \<Rightarrow> real \<Rightarrow> real" where
  "orElse v d = (case v of None \<Rightarrow> d | Some n \<Rightarrow> if n = 0 then d else n)"

text \<open>Decimal rendering of a non-negative integer inside a template string.\<close>

fun showNat :: "nat \<Rightarrow> string" where
  "showNat n =
     (if n < 10 then [char_of (48 + n)]
      else showNat (n div 10) @ [char_of (48 + n mod 10)])"

declare showNat.simps [simp del]

section \<open>World generation: \<open>initWorld\<close>\<close>

definition streamEntity :: "nat \<Rightarrow> real \<Rightarrow> Entity" where
  "streamEntity i currentSeed =
     (let x = (real i / 30) * CANVAS_WIDTH;
          y = (CANVAS_HEIGHT / 2) + sin (real i * 0.5 + currentSeed) * 400
      in \<lparr>id_of = ''stream-'' @ showNat i,
          pos = \<lparr>x_of = x, y_of = y\<rparr>,
          velocity = \<lparr>x_of = 0, y_of = 0\<rparr>, rotation = 0, radius = 60,
          type_of = STREAM, hp = 0, maxHp = 0, isAttacking = False, attackCooldown = 0,
          walkCycle = 0, color = ''#3b82f6'',
          level = None, xp = None, maxXp = None\<rparr>)"

text \<open>The body of the second loop of \<open>initWorld\<close> for index \<open>i\<close>, entered with the value
  \<open>seed0\<close> of \<open>currentSeed\<close>: the entity pushed (if any) and \<open>currentSeed\<close> afterwards.\<close>

definition obstacleBody :: "nat \<Rightarrow> real \<Rightarrow> Entity option \<times> real" where
  "obstacleBody i seed0 =
     (let currentSeed = seed0 + 1;
          r1 = seededRandom currentSeed;
          currentSeed = currentSeed + 1;
          r2 = seededRandom currentSeed;
          p = \<lparr>x_of = r1 * CANVAS_WIDTH, y_of = r2 * CANVAS_HEIGHT\<rparr>
      in if dist_vec p SPAWN_ZONE_CENTER > SPAWN_ZONE_RADIUS + 50 then
           (let isRock = seededRandom (currentSeed + 10) > 0.8
            in (Some \<lparr>id_of = ''env-'' @ showNat i,
                  pos = p,
                  velocity = \<lparr>x_of = 0, y_of = 0\<rparr>,
                  rotation = seededRandom (currentSeed + 5) * pi * 2,
                  radius = (if isRock then 25 + seededRandom currentSeed * 20
                            else 40 + seededRandom (currentSeed + 1) * 50),
                  type_of = (if isRock then ROCK else TREE),
                  hp = 100, maxHp = 100, isAttacking = False, attackCooldown = 0,
                  walkCycle = 0,
                  color = (if isRock then ''#57534e'' else ''#14532d''),
                  level = None, xp = None, maxXp = None\<rparr>, currentSeed))
         else (None, currentSeed))"

function treesAndRocks :: "nat \<Rightarrow> real \<Rightarrow> Entity list \<Rightarrow> Entity list" where
  "treesAndRocks i currentSeed env =
     (if i < 250 then
        (case obstacleBody i currentSeed of
           (Some e, seed') \<Rightarrow> treesAndRocks (i + 1) seed' (env @ [e])
         | (None, seed') \<Rightarrow> treesAndRocks (i + 1) seed' env)
      else env)"
  by pat_completeness auto
termination
  by (relation "measure (\<lambda>(i, currentSeed, env). 250 - i)") auto

declare treesAndRocks.simps [simp del]

definition generateEnv :: "real \<Rightarrow> Entity list" where
  "generateEnv seed = treesAndRocks 0 seed (map (\<lambda>i. streamEntity i seed) [0..<30])"

definition initWorld :: "real \<Rightarrow> GameState \<Rightarrow> GameState" where
  "initWorld seed s = s\<lparr>environment := generateEnv seed\<rparr>"

section \<open>Spawning: \<open>spawnSnakes\<close>\<close>

text \<open>
  \<open>Math.random()\<close> is a tape of successive results; a tape that runs out before the
  code stops drawing gives \<open>None\<close>.  \<open>now i\<close> is the reading of \<open>Date.now()\<close> taken for
  the snake of index \<open>i\<close>.
\<close>

fun randomPos :: "real list \<Rightarrow> (Vec2 \<times> real list) option" where
  "randomPos (a # b # rs) = Some (\<lparr>x_of = a * CANVAS_WIDTH, y_of = b * CANVAS_HEIGHT\<rparr>, rs)"
| "randomPos rs = None"

fun retryPos :: "Vec2 \<Rightarrow> Vec2 \<Rightarrow> real list \<Rightarrow> (Vec2 \<times> real list) option" where
  "retryPos playerPos p rs =
     (if dist_vec p playerPos < 600 \<or> dist_vec p SPAWN_ZONE_CENTER < SPAWN_ZONE_RADIUS then
        (case rs of
           a # b # rs' \<Rightarrow>
             retryPos playerPos \<lparr>x_of = a * CANVAS_WIDTH, y_of = b * CANVAS_HEIGHT\<rparr> rs'
         | _ \<Rightarrow> None)
      else Some (p, rs))"

declare retryPos.simps [simp del]

definition newSnake :: "string \<Rightarrow> Vec2 \<Rightarrow> Entity" where
  "newSnake ident p =
     \<lparr>id_of = ident,
      pos = p,
      velocity = \<lparr>x_of = 0, y_of = 0\<rparr>,
      rotation = 0,
      radius = 20,
      type_of = SNAKE,
      hp = 60,
      maxHp = 60,
      isAttacking = False,
      attackCooldown = 0,
      walkCycle = 0,
      color = ''#4d7c0f'',
      level = None, xp = None, maxXp = None\<rparr>"

function spawnFrom ::
  "nat \<Rightarrow> nat \<Rightarrow> (nat \<Rightarrow> nat) \<Rightarrow> GameState \<Rightarrow> real list \<Rightarrow> (GameState \<times> real list) option"
where
  "spawnFrom i count now s rs =
     (if i < count then
        (case randomPos rs of
           None \<Rightarrow> None
         | Some (p0, rs0) \<Rightarrow>
             (case retryPos (pos (player s)) p0 rs0 of
                None \<Rightarrow> None
              | Some (p, rs1) \<Rightarrow>
                  spawnFrom (i + 1) count now
                    (s\<lparr>enemies := enemies s @
                         [newSnake (''snake-'' @ showNat (now i) @ ''-'' @ showNat i) p]\<rparr>)
                    rs1))
      else Some (s, rs))"
  by pat_completeness auto
termination
  by (relation "measure (\<lambda>(i, count, now, s, rs). count - i)") auto

declare spawnFrom.simps [simp del]

definition spawnSnakes ::
  "nat \<Rightarrow> (nat \<Rightarrow> nat) \<Rightarrow> GameState \<Rightarrow> real list \<Rightarrow> (GameState \<times> real list) option"
where
  "spawnSnakes count now s rs = spawnFrom 0 count now s rs"

section \<open>Combat and progression: \<open>gainXp\<close>, \<open>handleAttack\<close>\<close>

definition gainXp :: "real \<Rightarrow> Entity \<Rightarrow> Entity" where
  "gainXp amount p =
     (if orElse (level p) 1 \<ge> 2 then p
      else
        (let newXp = orElse (xp p) 0 + amount;
             p1 = p\<lparr>xp := Some newXp\<rparr>
         in if newXp \<ge> orElse (maxXp p1) 100 then
              p1\<lparr>level := Some 2, xp := maxXp p1, hp := maxHp p1\<rparr>
            else p1))"

text \<open>The two \<open>while\<close> loops that bring the angle difference back towards zero.\<close>

function wrapDown :: "real \<Rightarrow> real" where
  "wrapDown angleDiff = (if angleDiff > pi then wrapDown (angleDiff - pi * 2) else angleDiff)"
  by pat_completeness auto
termination
proof (relation "measure (\<lambda>a. nat \<lceil>a / (2 * pi)\<rceil>)")
  show "wf (measure (\<lambda>a::real. nat \<lceil>a / (2 * pi)\<rceil>))" by simp
next
  fix angleDiff :: real
  assume h: "pi < angleDiff"
  have e: "(angleDiff - pi * 2) / (2 * pi) = angleDiff / (2 * pi) - 1"
    by (simp add: field_simps)
  have "1 / 2 < angleDiff / (2 * pi)" using h by (simp add: field_simps)
  then have "0 < \<lceil>angleDiff / (2 * pi)\<rceil>" by linarith
  then have "nat \<lceil>(angleDiff - pi * 2) / (2 * pi)\<rceil> < nat \<lceil>angleDiff / (2 * pi)\<rceil>"
    unfolding e by simp
  then show "(angleDiff - pi * 2, angleDiff) \<in> measure (\<lambda>a. nat \<lceil>a / (2 * pi)\<rceil>)"
    unfolding in_measure .
qed

function wrapUp :: "real \<Rightarrow> real" where
  "wrapUp angleDiff = (if angleDiff < - pi then wrapUp (angleDiff + pi * 2) else angleDiff)"
  by pat_completeness auto
termination
proof (relation "measure (\<lambda>a. nat \<lceil>- a / (2 * pi)\<rceil>)")
  show "wf (measure (\<lambda>a::real. nat \<lceil>- a / (2 * pi)\<rceil>))" by simp
next
  fix angleDiff :: real
  assume h: "angleDiff < - pi"
  have e: "- (angleDiff + pi * 2) / (2 * pi) = - angleDiff / (2 * pi) - 1"
    by (simp add: field_simps)
  have "1 / 2 < - angleDiff / (2 * pi)" using h by (simp add: field_simps)
  then have "0 < \<lceil>- angleDiff / (2 * pi)\<rceil>" by linarith
  then have "nat \<lceil>- (angleDiff + pi * 2) / (2 * pi)\<rceil> < nat \<lceil>- angleDiff / (2 * pi)\<rceil>"
    unfolding e by simp
  then show "(angleDiff + pi * 2, angleDiff) \<in> measure (\<lambda>a. nat \<lceil>- a / (2 * pi)\<rceil>)"
    unfolding in_measure .
qed

declare wrapDown.simps [simp del]
declare wrapUp.simps [simp del]

definition attackRange :: real where "attackRange = 150"
definition attackAngle :: real where "attackAngle = 1.5"

text \<open>The angle difference of \<open>handleAttack\<close> after both loops.\<close>

definition angleDiffTo :: "Entity \<Rightarrow> Entity \<Rightarrow> real" where
  "angleDiffTo p enemy =
     (let dx = x_of (pos enemy) - x_of (pos p);
          dy = y_of (pos enemy) - y_of (pos p);
          angleToEnemy = atan2 dy dx
      in wrapUp (wrapDown (angleToEnemy - rotation p)))"

text \<open>The callback of \<open>state.current.enemies.forEach\<close> in \<open>handleAttack\<close>: it updates
  the enemy in place and, through \<open>gainXp\<close>, the player.  \<open>damage\<close> is fixed before the
  loop starts.\<close>

definition attackEnemy :: "real \<Rightarrow> Entity \<Rightarrow> Entity \<Rightarrow> Entity \<times> Entity" where
  "attackEnemy damage p enemy =
     (let dx = x_of (pos enemy) - x_of (pos p);
          dy = y_of (pos enemy) - y_of (pos p);
          d = sqrt (dx * dx + dy * dy)
      in if d < attackRange then
           (let angleToEnemy = atan2 dy dx;
                angleDiff = wrapUp (wrapDown (angleToEnemy - rotation p))
            in if \<bar>angleDiff\<bar> < attackAngle then
                 (let e1 = enemy\<lparr>hp := hp enemy - damage\<rparr>;
                      e2 = e1\<lparr>pos := \<lparr>x_of = x_of (pos e1) + cos angleToEnemy * 40,
                                       y_of = y_of (pos e1) + sin angleToEnemy * 40\<rparr>\<rparr>
                  in if hp e2 \<le> 0 \<and> hp e2 + damage > 0 then (gainXp 10 p, e2)
                     else (p, e2))
               else (p, enemy))
         else (p, enemy))"

fun attackAll :: "real \<Rightarrow> Entity \<Rightarrow> Entity list \<Rightarrow> Entity \<times> Entity list" where
  "attackAll damage p [] = (p, [])"
| "attackAll damage p (enemy # rest) =
     (case attackEnemy damage p enemy of
        (p', enemy') \<Rightarrow>
          (case attackAll damage p' rest of (p'', rest') \<Rightarrow> (p'', enemy' # rest')))"

definition handleAttack :: "GameState \<Rightarrow> GameState" where
  "handleAttack s =
     (if gameOver s then s
      else
        (let p = player s
         in if attackCooldown p \<le> 0 then
              (let p1 = p\<lparr>isAttacking := True, attackCooldown := 25\<rparr>;
                   damage = (if orElse (level p1) 1 \<ge> 2 then 60 else 12)
               in (case attackAll damage p1 (enemies s) of
                     (p2, es) \<Rightarrow> s\<lparr>player := p2, enemies := es\<rparr>))
            else s))"

section \<open>Network messages\<close>

text \<open>The payload of \<open>PLAYER_UPDATE\<close> lists \<open>pos\<close>, \<open>rotation\<close>, \<open>walkCycle\<close>,
  \<open>isAttacking\<close>, \<open>hp\<close> and \<open>level\<close>; \<open>WORLD_UPDATE\<close> carries \<open>enemies\<close>.  Any other
  value of the \<open>type\<close> tag is \<open>OTHER\<close>.\<close>

datatype Message =
    PLAYER_UPDATE Vec2 real real bool real "real option"
  | WORLD_UPDATE "Entity list"
  | OTHER

text \<open>The \<open>conn.on('data', ...)\<close> handler of the levelling engine.\<close>

definition onData :: "bool \<Rightarrow> Message \<Rightarrow> GameState \<Rightarrow> GameState" where
  "onData isHost data s =
     (let s1 = (case (data, friend s) of
                  (PLAYER_UPDATE dpos drot dwalk datt dhp dlevel, Some f) \<Rightarrow>
                    s\<lparr>friend := Some (f\<lparr>pos := dpos, rotation := drot, walkCycle := dwalk,
                                          isAttacking := datt, hp := dhp, level := dlevel\<rparr>)\<rparr>
                | _ \<Rightarrow> s)
      in (case data of
            WORLD_UPDATE es \<Rightarrow> if \<not> isHost then s1\<lparr>enemies := es\<rparr> else s1
          | _ \<Rightarrow> s1))"

text \<open>The handler of the lobby file's engine: its \<open>WORLD_UPDATE\<close> carries the score as
  well and its \<open>PLAYER_UPDATE\<close> has no level.\<close>

datatype LobbyMessage =
    L_PLAYER_UPDATE Vec2 real real bool real
  | L_WORLD_UPDATE "Entity list" real
  | L_OTHER

definition onData_Lobby :: "bool \<Rightarrow> LobbyMessage \<Rightarrow> GameState \<Rightarrow> GameState" where
  "onData_Lobby isHost data s =
     (let s1 = (case (data, friend s) of
                  (L_PLAYER_UPDATE dpos drot dwalk datt dhp, Some f) \<Rightarrow>
                    s\<lparr>friend := Some (f\<lparr>pos := dpos, rotation := drot, walkCycle := dwalk,
                                          isAttacking := datt, hp := dhp\<rparr>)\<rparr>
                | _ \<Rightarrow> s)
      in (case data of
            L_WORLD_UPDATE es sc \<Rightarrow> if \<not> isHost then s1\<lparr>enemies := es, score := sc\<rparr> else s1
          | _ \<Rightarrow> s1))"

section \<open>One tick: \<open>updatePhysics\<close>\<close>

record Joystick =
  active :: bool
  dx_of :: real
  dy_of :: real

text \<open>The component's inputs: its props (\<open>conn\<close> is \<open>None\<close> when absent and otherwise
  holds \<open>conn.open\<close>), the pressed key codes and the virtual joystick.\<close>

record Inputs =
  isMultiplayer :: bool
  isHost :: bool
  conn :: "bool option"
  keys :: "string \<Rightarrow> bool"
  joystick :: Joystick

definition inputDir :: "Inputs \<Rightarrow> real \<times> real" where
  "inputDir inp =
     (let dx = 0; dy = 0;
          dy = (if keys inp ''KeyW'' \<or> keys inp ''ArrowUp'' then - 1 else dy);
          dy = (if keys inp ''KeyS'' \<or> keys inp ''ArrowDown'' then 1 else dy);
          dx = (if keys inp ''KeyA'' \<or> keys inp ''ArrowLeft'' then - 1 else dx);
          dx = (if keys inp ''KeyD'' \<or> keys inp ''ArrowRight'' then 1 else dx)
      in if active (joystick inp) then (dx_of (joystick inp), dy_of (joystick inp))
         else (dx, dy))"

definition movePlayer :: "Inputs \<Rightarrow> Entity \<Rightarrow> Entity" where
  "movePlayer inp p =
     (let speed = 7 in
      case inputDir inp of (dx, dy) \<Rightarrow>
        if dx \<noteq> 0 \<or> dy \<noteq> 0 then
          (let len = sqrt (dx * dx + dy * dy)
           in p\<lparr>pos := \<lparr>x_of = x_of (pos p) + (dx / len) * speed,
                         y_of = y_of (pos p) + (dy / len) * speed\<rparr>,
                 walkCycle := walkCycle p + 0.3,
                 rotation := atan2 dy dx\<rparr>)
        else p\<lparr>walkCycle := 0\<rparr>)"

definition tickCooldown :: "Entity \<Rightarrow> Entity" where
  "tickCooldown p =
     (if attackCooldown p > 0 then
        (let p1 = p\<lparr>attackCooldown := attackCooldown p - 1\<rparr>
         in if attackCooldown p1 \<le> 0 then p1\<lparr>isAttacking := False\<rparr> else p1)
      else p)"

definition nearStream :: "Entity list \<Rightarrow> Entity \<Rightarrow> bool" where
  "nearStream env p =
     list_ex (\<lambda>stream. dist_vec (pos p) (pos stream) < radius stream)
       (filter (\<lambda>e. type_of e = STREAM) env)"

text \<open>\<open>Math.random()\<close> is only called when the two tests before it succeed.\<close>

definition healFromStream :: "Entity list \<Rightarrow> Entity \<Rightarrow> real list \<Rightarrow> (Entity \<times> real list) option" where
  "healFromStream env p rs =
     (if nearStream env p \<and> hp p < maxHp p then
        (case rs of
           [] \<Rightarrow> None
         | r # rs' \<Rightarrow>
             Some (if r > 0.9 then p\<lparr>hp := min (maxHp p) (hp p + 1)\<rparr> else p, rs'))
      else Some (p, rs))"

text \<open>The target of a snake is a reference to the position object of the player or of the
  friend; \<open>target === s.player.pos\<close> compares references.\<close>

datatype Target = PlayerPos | FriendPos

text \<open>The callback of \<open>s.enemies.forEach\<close>: the snake and the player's health after it.
  The \<open>setTimeout\<close> that clears \<open>isAttacking\<close> 300 ms later runs outside the tick.\<close>

definition snakeStep :: "Vec2 \<Rightarrow> Entity option \<Rightarrow> Entity \<Rightarrow> real \<Rightarrow> Entity \<times> real" where
  "snakeStep playerPos fr snake playerHp =
     (let distToPlayer = dist_vec (pos snake) playerPos;
          (target, targetPos, closestDist) =
             (case fr of
                None \<Rightarrow> (PlayerPos, playerPos, distToPlayer)
              | Some f \<Rightarrow>
                  (let distToFriend = dist_vec (pos snake) (pos f)
                   in if distToFriend < distToPlayer then (FriendPos, pos f, distToFriend)
                      else (PlayerPos, playerPos, distToPlayer)));
          (snake1, hp1) =
             (if closestDist < 800 then
                (let edx = x_of targetPos - x_of (pos snake);
                     edy = y_of targetPos - y_of (pos snake);
                     angle = atan2 edy edx;
                     sn = snake\<lparr>rotation := angle,
                                pos := \<lparr>x_of = x_of (pos snake) + cos angle * 3.5,
                                        y_of = y_of (pos snake) + sin angle * 3.5\<rparr>,
                                walkCycle := walkCycle snake + 0.4\<rparr>
                 in if closestDist < 35 \<and> attackCooldown sn \<le> 0 then
                      (sn\<lparr>attackCooldown := 60, isAttacking := True\<rparr>,
                       if target = PlayerPos then playerHp - 10 else playerHp)
                    else (sn, playerHp))
              else (snake, playerHp))
      in (if attackCooldown snake1 > 0
          then snake1\<lparr>attackCooldown := attackCooldown snake1 - 1\<rparr> else snake1,
          hp1))"

fun snakesStep :: "Vec2 \<Rightarrow> Entity option \<Rightarrow> Entity list \<Rightarrow> real \<Rightarrow> Entity list \<times> real" where
  "snakesStep playerPos fr [] playerHp = ([], playerHp)"
| "snakesStep playerPos fr (snake # rest) playerHp =
     (case snakeStep playerPos fr snake playerHp of
        (snake', hp') \<Rightarrow>
          (case snakesStep playerPos fr rest hp' of (rest', hp'') \<Rightarrow> (snake' # rest', hp'')))"

text \<open>``Enemy Logic (Host only)'' with ``Cleanup Dead Snakes''.  \<open>spawnSnakes\<close> pushes onto
  the array that \<open>s.enemies\<close> still refers to; the assignment \<open>s.enemies = aliveEnemies\<close>
  that follows installs the array filtered before, so only the draws of the spawn remain.\<close>

definition enemyLogic ::
  "Inputs \<Rightarrow> (nat \<Rightarrow> nat) \<Rightarrow> GameState \<Rightarrow> real list \<Rightarrow> (GameState \<times> real list) option"
where
  "enemyLogic inp now s rs =
     (if \<not> isMultiplayer inp \<or> isHost inp then
        (case snakesStep (pos (player s)) (friend s) (enemies s) (hp (player s)) of
           (es, php) \<Rightarrow>
             (let s1 = s\<lparr>player := (player s)\<lparr>hp := php\<rparr>, enemies := es\<rparr>;
                  aliveEnemies = filter (\<lambda>e. hp e > 0) (enemies s1)
              in if length aliveEnemies < length (enemies s1) \<and> length aliveEnemies < 5 then
                   (case spawnSnakes 3 now s1 rs of
                      None \<Rightarrow> None
                    | Some (s2, rs') \<Rightarrow> Some (s2\<lparr>enemies := aliveEnemies\<rparr>, rs'))
                 else Some (s1\<lparr>enemies := aliveEnemies\<rparr>, rs)))
      else Some (s, rs))"

text \<open>``World Bounds \& Environment Collision'': the clamp, then one push per overlapping
  rock, for each dynamic entity.\<close>

definition clampEntity :: "Entity \<Rightarrow> Entity" where
  "clampEntity ent =
     ent\<lparr>pos := \<lparr>x_of = max 0 (min CANVAS_WIDTH (x_of (pos ent))),
                  y_of = max 0 (min CANVAS_HEIGHT (y_of (pos ent)))\<rparr>\<rparr>"

definition pushFromRock :: "Entity \<Rightarrow> Entity \<Rightarrow> Entity" where
  "pushFromRock ent rock =
     (let d = dist_vec (pos ent) (pos rock);
          minD = radius ent + radius rock
      in if d < minD then
           (let angle = atan2 (y_of (pos ent) - y_of (pos rock)) (x_of (pos ent) - x_of (pos rock));
                push = minD - d
            in ent\<lparr>pos := \<lparr>x_of = x_of (pos ent) + cos angle * push,
                            y_of = y_of (pos ent) + sin angle * push\<rparr>\<rparr>)
         else ent)"

definition boundAndCollide :: "Entity list \<Rightarrow> Entity \<Rightarrow> Entity" where
  "boundAndCollide env ent =
     foldl pushFromRock (clampEntity ent) (filter (\<lambda>e. type_of e = ROCK) env)"


definition collideAll :: "GameState \<Rightarrow> GameState" where
  "collideAll s =
     s\<lparr>player := boundAndCollide (environment s) (player s),
       enemies := map (boundAndCollide (environment s)) (enemies s),
       friend := map_option (boundAndCollide (environment s)) (friend s)\<rparr>"

definition followCamera :: "GameState \<Rightarrow> GameState" where
  "followCamera s =
     s\<lparr>camera := \<lparr>x_of = lerp (x_of (camera s)) (x_of (pos (player s))) 0.1,
                   y_of = lerp (y_of (camera s)) (y_of (pos (player s))) 0.1\<rparr>\<rparr>"

definition updatePhysics ::
  "Inputs \<Rightarrow> (nat \<Rightarrow> nat) \<Rightarrow> GameState \<Rightarrow> real list \<Rightarrow> (GameState \<times> real list) option"
where
  "updatePhysics inp now s rs =
     (let p1 = tickCooldown (movePlayer inp (player s))
      in case healFromStream (environment s) p1 rs of
           None \<Rightarrow> None
         | Some (p2, rs1) \<Rightarrow>
             (case enemyLogic inp now (s\<lparr>player := p2\<rparr>) rs1 of
                None \<Rightarrow> None
              | Some (s1, rs2) \<Rightarrow> Some (followCamera (collideAll s1), rs2)))"

section \<open>The scheduler: \<open>gameLoop\<close>\<close>

record Hud =
  hud_hp :: real
  hud_level :: real
  hud_xp :: real
  hud_maxXp :: real
  hud_gameOver :: bool

text \<open>What one call of \<open>gameLoop\<close> leaves behind: the state, the HUD, the messages sent,
  whether a frame was rendered, whether \<open>requestAnimationFrame\<close> scheduled the next call,
  and the rest of the random tape.\<close>

record Frame =
  state_of :: GameState
  hud_of :: Hud
  sent :: "Message list"
  rendered :: bool
  scheduled :: bool
  tape :: "real list"

definition outgoing :: "Inputs \<Rightarrow> GameState \<Rightarrow> Message list" where
  "outgoing inp s =
     (if isMultiplayer inp \<and> conn inp = Some True then
        [PLAYER_UPDATE (pos (player s)) (rotation (player s)) (walkCycle (player s))
           (isAttacking (player s)) (hp (player s)) (level (player s))]
        @ (if isHost inp then [WORLD_UPDATE (enemies s)] else [])
      else [])"

definition gameLoop ::
  "Inputs \<Rightarrow> (nat \<Rightarrow> nat) \<Rightarrow> GameState \<Rightarrow> Hud \<Rightarrow> real list \<Rightarrow> Frame option"
where
  "gameLoop inp now s hud rs =
     (if gameOver s then
        Some \<lparr>state_of = s, hud_of = hud\<lparr>hud_gameOver := True\<rparr>, sent = [],
              rendered = False, scheduled = False, tape = rs\<rparr>
      else
        (case updatePhysics inp now s rs of
           None \<Rightarrow> None
         | Some (s1, rs1) \<Rightarrow>
             (case rs1 of
                [] \<Rightarrow> None
              | r # rs2 \<Rightarrow>
                  Some \<lparr>state_of = s1,
                        hud_of = (if r > 0.9 then
                                    \<lparr>hud_hp = hp (player s1),
                                     hud_level = orElse (level (player s1)) 1,
                                     hud_xp = orElse (xp (player s1)) 0,
                                     hud_maxXp = orElse (maxXp (player s1)) 100,
                                     hud_gameOver = gameOver s1\<rparr>
                                  else hud),
                        sent = outgoing inp s1,
                        rendered = True, scheduled = True, tape = rs2\<rparr>)))"

section \<open>The enemy step of the engine without levelling\<close>


section \<open>The initial state\<close>

text \<open>The literal that initialises the \<open>state\<close> reference, and the friend installed in a
  two-peer session.\<close>

definition initialPlayer :: Entity where
  "initialPlayer =
     \<lparr>id_of = ''p1'',
      pos = \<lparr>x_of = x_of SPAWN_ZONE_CENTER, y_of = y_of SPAWN_ZONE_CENTER\<rparr>,
      velocity = \<lparr>x_of = 0, y_of = 0\<rparr>,
      rotation = 0,
      radius = 25,
      type_of = PLAYER,
      hp = 100,
      maxHp = 100,
      isAttacking = False,
      attackCooldown = 0,
      walkCycle = 0,
      color = ''#cbd5e1'',
      level = Some 1,
      xp = Some 0,
      maxXp = Some 100\<rparr>"


definition initialState :: GameState where
  "initialState =
     \<lparr>player = initialPlayer,
      friend = None,
      enemies = [],
      environment = [],
      score = 0,
      gameOver = False,
      camera = \<lparr>x_of = x_of SPAWN_ZONE_CENTER, y_of = y_of SPAWN_ZONE_CENTER\<rparr>\<rparr>"

text \<open>An obstacle is a tree or a rock.\<close>

definition isObstacle :: "Entity \<Rightarrow> bool" where
  "isObstacle e = (type_of e = TREE \<or> type_of e = ROCK)"

section \<open>The draws of the generator, in evaluation order\<close>

text \<open>The loop body of \<open>initWorld\<close> once more, with every call of \<open>seededRandom\<close>
  recorded in the order JavaScript evaluates them: what the value is used for and the
  argument of the call.  \<open>accepted\<close> is the test of the body on its candidate position.\<close>

datatype Draw = PositionX | PositionY | TypeThreshold | Rotation | Radius

definition draw :: "Draw \<Rightarrow> real \<Rightarrow> (Draw \<times> real) list \<Rightarrow> real \<times> (Draw \<times> real) list" where
  "draw purpose seed calls = (seededRandom seed, calls @ [(purpose, seed)])"

definition obstacleBodyLogged :: "nat \<Rightarrow> real \<Rightarrow> (Entity option \<times> real) \<times> (Draw \<times> real) list" where
  "obstacleBodyLogged i seed0 =
     (let currentSeed = seed0 + 1;
          (r1, calls) = draw PositionX currentSeed [];
          currentSeed = currentSeed + 1;
          (r2, calls) = draw PositionY currentSeed calls;
          p = \<lparr>x_of = r1 * CANVAS_WIDTH, y_of = r2 * CANVAS_HEIGHT\<rparr>
      in if dist_vec p SPAWN_ZONE_CENTER > SPAWN_ZONE_RADIUS + 50 then
           (let (t, calls) = draw TypeThreshold (currentSeed + 10) calls;
                isRock = t > 0.8;
                (rot, calls) = draw Rotation (currentSeed + 5) calls;
                (rad, calls) = (if isRock then draw Radius currentSeed calls
                              else draw Radius (currentSeed + 1) calls)
            in ((Some \<lparr>id_of = ''env-'' @ showNat i,
                  pos = p,
                  velocity = \<lparr>x_of = 0, y_of = 0\<rparr>,
                  rotation = rot * pi * 2,
                  radius = (if isRock then 25 + rad * 20 else 40 + rad * 50),
                  type_of = (if isRock then ROCK else TREE),
                  hp = 100, maxHp = 100, isAttacking = False, attackCooldown = 0,
                  walkCycle = 0,
                  color = (if isRock then ''#57534e'' else ''#14532d''),
                  level = None, xp = None, maxXp = None\<rparr>, currentSeed), calls))
         else ((None, currentSeed), calls))"

definition accepted :: "real \<Rightarrow> bool" where
  "accepted seed0 =
     (dist_vec \<lparr>x_of = seededRandom (seed0 + 1) * CANVAS_WIDTH,
               y_of = seededRandom (seed0 + 2) * CANVAS_HEIGHT\<rparr> SPAWN_ZONE_CENTER
        > SPAWN_ZONE_RADIUS + 50)"

section \<open>Reach of a melee attack\<close>

text \<open>An enemy is in reach of the attacker when it passes both tests of \<open>handleAttack\<close>:
  closer than the attack range, and within the attack angle of the facing direction.\<close>

definition inReach :: "Entity \<Rightarrow> Entity \<Rightarrow> bool" where
  "inReach p enemy =
     (dist_vec (pos enemy) (pos p) < attackRange \<and> \<bar>angleDiffTo p enemy\<bar> < attackAngle)"

text \<open>Successive attacks on one enemy, each by the attacker as it stands at that attack,
  each with the enemy in reach (\<open>None\<close> as soon as one attack misses); the enemy is
  knocked back between them.\<close>

fun strikes :: "real \<Rightarrow> Entity list \<Rightarrow> Entity \<Rightarrow> Entity option" where
  "strikes damage [] enemy = Some enemy"
| "strikes damage (p # ps) enemy =
     (if inReach p enemy then strikes damage ps (snd (attackEnemy damage p enemy)) else None)"

text \<open>The initial player moved along the line \<open>y = 1250\<close>.\<close>

definition attackerAt :: "real \<Rightarrow> Entity" where
  "attackerAt x = initialPlayer\<lparr>pos := \<lparr>x_of = x, y_of = 1250\<rparr>\<rparr>"

section \<open>The avatar a snake turns to\<close>


section \<open>World bounds and rock contact\<close>



section \<open>Sample inputs and states\<close>

text \<open>A solo session with no key pressed and the joystick at rest; the HUD as first
  rendered; the initial state with the player's health set to \<open>h\<close> and one fresh snake 20
  units to the right of the player; that snake after its bite and after one further step;
  and the initial state with the player at \<open>(10, 1250)\<close> next to a rock of radius 35 at
  \<open>(30, 1250)\<close>.\<close>

definition idleSolo :: Inputs where
  "idleSolo = \<lparr>isMultiplayer = False, isHost = False, conn = None, keys = (\<lambda>code. False),
               joystick = \<lparr>active = False, dx_of = 0, dy_of = 0\<rparr>\<rparr>"

definition initialHud :: Hud where
  "initialHud = \<lparr>hud_hp = 100, hud_level = 1, hud_xp = 0, hud_maxXp = 100, hud_gameOver = False\<rparr>"

definition bittenState :: "real \<Rightarrow> GameState" where
  "bittenState h =
     initialState\<lparr>player := initialPlayer\<lparr>hp := h\<rparr>,
                  enemies := [newSnake ''snake-0-0'' \<lparr>x_of = 1270, y_of = 1250\<rparr>]\<rparr>"

definition bitingSnake :: Entity where
  "bitingSnake =
     (newSnake ''snake-0-0'' \<lparr>x_of = 1270, y_of = 1250\<rparr>)
        \<lparr>rotation := pi, pos := \<lparr>x_of = 1266.5, y_of = 1250\<rparr>, walkCycle := 0.4,
         attackCooldown := 59, isAttacking := True\<rparr>"

definition creepingSnake :: Entity where
  "creepingSnake =
     (newSnake ''snake-0-0'' \<lparr>x_of = 1270, y_of = 1250\<rparr>)
        \<lparr>rotation := pi, pos := \<lparr>x_of = 1263, y_of = 1250\<rparr>, walkCycle := 0.8,
         attackCooldown := 58, isAttacking := True\<rparr>"

definition bittenAfter :: "real \<Rightarrow> GameState" where
  "bittenAfter h = (bittenState (h - 10))\<lparr>enemies := [bitingSnake]\<rparr>"

definition deadAfter :: GameState where
  "deadAfter = (bittenState 0)\<lparr>enemies := [creepingSnake]\<rparr>"



section \<open>Determinism of world generation\<close>

text \<open>
  C3. World generation is deterministic in the seed: whatever the two states in which
  \<open>initWorld\<close> is invoked, the same seed leaves the same environment list (same order,
  positions, radii and types); the generator reads nothing but its seed.
\<close>

theorem initWorld_deterministic:
  "environment (initWorld seed s1) = environment (initWorld seed s2)"
  by (simp add: initWorld_def)

section \<open>Receiving a world snapshot\<close>

text \<open>
  C4. On a peer that is not the host, a \<open>WORLD_UPDATE\<close> message replaces the enemies
  collection by the list of the message, in the levelling engine and in the lobby file's
  engine alike; nothing of the previous collection survives unless the message lists it.
\<close>

theorem world_update_replaces_enemies:
  "\<not> host \<Longrightarrow>
     enemies (onData host (WORLD_UPDATE es) s) = es \<and>
     enemies (onData_Lobby host (L_WORLD_UPDATE es sc) s) = es \<and>
     (\<forall>e. e \<in> set (enemies (onData host (WORLD_UPDATE es) s)) \<longrightarrow> e \<in> set es)"
  by (simp add: onData_def onData_Lobby_def split: option.splits)

theorem world_update_replaces_enemies_witness:
  "enemies (onData False (WORLD_UPDATE [newSnake ''snake-7-0'' \<lparr>x_of = 10, y_of = 20\<rparr>])
      (initialState\<lparr>enemies := [newSnake ''snake-3-1'' \<lparr>x_of = 5, y_of = 5\<rparr>]\<rparr>))
    = [newSnake ''snake-7-0'' \<lparr>x_of = 10, y_of = 20\<rparr>]"
  using world_update_replaces_enemies [of False "[newSnake ''snake-7-0'' \<lparr>x_of = 10, y_of = 20\<rparr>]"
      "initialState\<lparr>enemies := [newSnake ''snake-3-1'' \<lparr>x_of = 5, y_of = 5\<rparr>]\<rparr>"]
  by simp

section \<open>Experience and levelling\<close>

text \<open>
  C10. \<open>gainXp\<close> leaves a player of level 2 or more unchanged.  Below level 2 the
  experience grows by the amount given; when it reaches the threshold \<open>maxXp || 100\<close> the
  level becomes 2, experience is set to \<open>maxXp\<close> and health to \<open>maxHp\<close>.  For a player
  whose \<open>maxXp\<close> is set and not 0 (the player's is 100) the threshold is \<open>maxXp\<close>, so
  experience is capped at the threshold.
\<close>

theorem gainXp_levels_up:
  "(orElse (level p) 1 \<ge> 2 \<longrightarrow> gainXp amount p = p) \<and>
   (orElse (level p) 1 < 2 \<and> orElse (xp p) 0 + amount < orElse (maxXp p) 100 \<longrightarrow>
      gainXp amount p = p\<lparr>xp := Some (orElse (xp p) 0 + amount)\<rparr>) \<and>
   (orElse (level p) 1 < 2 \<and> orElse (xp p) 0 + amount \<ge> orElse (maxXp p) 100 \<longrightarrow>
      gainXp amount p = p\<lparr>level := Some 2, xp := maxXp p, hp := maxHp p\<rparr>) \<and>
   (maxXp p = Some m \<and> m \<noteq> 0 \<longrightarrow> orElse (maxXp p) 100 = m)"
  by (auto simp add: gainXp_def orElse_def Let_def)

theorem gainXp_levels_up_witness:
  "gainXp 10 (initialPlayer\<lparr>xp := Some 90, hp := 40\<rparr>)
     = initialPlayer\<lparr>xp := Some 90, hp := 40\<rparr>\<lparr>level := Some 2, xp := Some 100, hp := 100\<rparr> \<and>
   gainXp 10 initialPlayer = initialPlayer\<lparr>xp := Some 10\<rparr> \<and>
   gainXp 10 (initialPlayer\<lparr>level := Some 2\<rparr>) = initialPlayer\<lparr>level := Some 2\<rparr>"
  using gainXp_levels_up [of "initialPlayer\<lparr>xp := Some 90, hp := 40\<rparr>" 10 100]
    gainXp_levels_up [of "initialPlayer" 10 100]
    gainXp_levels_up [of "initialPlayer\<lparr>level := Some 2\<rparr>" 10 100]
  by (simp add: initialPlayer_def orElse_def)

section \<open>Obstacles keep out of the sanctuary\<close>

lemma obstacleBody_Some:
  "obstacleBody i seed0 = (Some e, seed') \<Longrightarrow>
     isObstacle e \<and> dist_vec (pos e) SPAWN_ZONE_CENTER > SPAWN_ZONE_RADIUS + 50"
  by (auto simp add: obstacleBody_def Let_def isObstacle_def split: if_splits)

lemma treesAndRocks_outside:
  "\<forall>e \<in> set env. isObstacle e \<longrightarrow> dist_vec (pos e) SPAWN_ZONE_CENTER > SPAWN_ZONE_RADIUS + 50 \<Longrightarrow>
   \<forall>e \<in> set (treesAndRocks i currentSeed env).
      isObstacle e \<longrightarrow> dist_vec (pos e) SPAWN_ZONE_CENTER > SPAWN_ZONE_RADIUS + 50"
proof (induction i currentSeed env rule: treesAndRocks.induct)
  case (1 i currentSeed env)
  show ?case
  proof (cases "i < 250")
    case False
    then show ?thesis using "1.prems" by (simp add: treesAndRocks.simps)
  next
    case True
    obtain r seed' where ob: "obstacleBody i currentSeed = (r, seed')"
      by (cases "obstacleBody i currentSeed")
    show ?thesis
    proof (cases r)
      case None
      have "\<forall>e\<in>set (treesAndRocks (i + 1) seed' env).
              isObstacle e \<longrightarrow> SPAWN_ZONE_RADIUS + 50 < dist_vec (pos e) SPAWN_ZONE_CENTER"
        using "1.IH"(1) [OF True ob [symmetric] None "1.prems"] by simp
      then show ?thesis using True ob None by (simp add: treesAndRocks.simps [of i])
    next
      case (Some e)
      have pe: "\<forall>a\<in>set (env @ [e]).
              isObstacle a \<longrightarrow> SPAWN_ZONE_RADIUS + 50 < dist_vec (pos a) SPAWN_ZONE_CENTER"
        using "1.prems" obstacleBody_Some [of i currentSeed e seed'] ob Some by auto
      have "\<forall>a\<in>set (treesAndRocks (i + 1) seed' (env @ [e])).
              isObstacle a \<longrightarrow> SPAWN_ZONE_RADIUS + 50 < dist_vec (pos a) SPAWN_ZONE_CENTER"
        using "1.IH"(2) [OF True ob [symmetric] Some pe] by simp
      then show ?thesis using True ob Some by (simp add: treesAndRocks.simps [of i])
    qed
  qed
qed

lemma treesAndRocks_count:
  "length (filter isObstacle (treesAndRocks i currentSeed env))
     \<le> length (filter isObstacle env) + (250 - i)"
proof (induction i currentSeed env rule: treesAndRocks.induct)
  case (1 i currentSeed env)
  show ?case
  proof (cases "i < 250")
    case False
    then show ?thesis by (simp add: treesAndRocks.simps)
  next
    case True
    obtain r seed' where ob: "obstacleBody i currentSeed = (r, seed')"
      by (cases "obstacleBody i currentSeed")
    show ?thesis
    proof (cases r)
      case None
      have "length (filter isObstacle (treesAndRocks (i + 1) seed' env))
              \<le> length (filter isObstacle env) + (250 - (i + 1))"
        using "1.IH"(1) [OF True ob [symmetric] None] by simp
      then show ?thesis using True ob None by (simp add: treesAndRocks.simps [of i])
    next
      case (Some e)
      have a: "length (filter isObstacle (treesAndRocks (i + 1) seed' (env @ [e])))
              \<le> length (filter isObstacle (env @ [e])) + (250 - (i + 1))"
        using "1.IH"(2) [OF True ob [symmetric] Some] by simp
      have b: "length (filter isObstacle (env @ [e])) \<le> length (filter isObstacle env) + 1"
        by simp
      have eq: "treesAndRocks i currentSeed env = treesAndRocks (i + 1) seed' (env @ [e])"
        using True ob Some by (simp add: treesAndRocks.simps [of i])
      show ?thesis unfolding eq using a b True by linarith
    qed
  qed
qed

lemma treesAndRocks_keeps: "set env \<subseteq> set (treesAndRocks i currentSeed env)"
proof (induction i currentSeed env rule: treesAndRocks.induct)
  case (1 i currentSeed env)
  show ?case
  proof (cases "i < 250")
    case False
    then show ?thesis by (simp add: treesAndRocks.simps)
  next
    case True
    obtain r seed' where ob: "obstacleBody i currentSeed = (r, seed')"
      by (cases "obstacleBody i currentSeed")
    show ?thesis
    proof (cases r)
      case None
      have "set env \<subseteq> set (treesAndRocks (i + 1) seed' env)"
        using "1.IH"(1) [OF True ob [symmetric] None] by simp
      then show ?thesis using True ob None by (simp add: treesAndRocks.simps [of i])
    next
      case (Some e)
      have "set (env @ [e]) \<subseteq> set (treesAndRocks (i + 1) seed' (env @ [e]))"
        using "1.IH"(2) [OF True ob [symmetric] Some] by simp
      then show ?thesis using True ob Some by (simp add: treesAndRocks.simps [of i])
    qed
  qed
qed

lemma stream_not_obstacle: "\<not> isObstacle (streamEntity i seed)"
  by (simp add: isObstacle_def streamEntity_def Let_def)

text \<open>
  C7. Every obstacle (tree or rock) of the generated environment lies strictly outside
  the sanctuary: its distance from the centre exceeds \<open>300 + 50\<close>.  A candidate
  inside that circle is skipped, not moved, so at most 250 obstacles are placed.
\<close>

theorem obstacles_outside_sanctuary:
  "(\<forall>e \<in> set (environment (initWorld seed s)).
      isObstacle e \<longrightarrow> dist_vec (pos e) SPAWN_ZONE_CENTER > SPAWN_ZONE_RADIUS + 50) \<and>
   length (filter isObstacle (environment (initWorld seed s))) \<le> 250 \<and>
   (\<forall>i seed0. fst (obstacleBody i seed0) = None \<longleftrightarrow>
      \<not> dist_vec \<lparr>x_of = seededRandom (seed0 + 1) * CANVAS_WIDTH,
                   y_of = seededRandom (seed0 + 2) * CANVAS_HEIGHT\<rparr> SPAWN_ZONE_CENTER
          > SPAWN_ZONE_RADIUS + 50)"
proof (intro conjI)
  have s0: "\<forall>e \<in> set (map (\<lambda>i. streamEntity i seed) [0..<30]).
      isObstacle e \<longrightarrow> dist_vec (pos e) SPAWN_ZONE_CENTER > SPAWN_ZONE_RADIUS + 50"
    by (simp add: stream_not_obstacle)
  show "\<forall>e \<in> set (environment (initWorld seed s)).
      isObstacle e \<longrightarrow> dist_vec (pos e) SPAWN_ZONE_CENTER > SPAWN_ZONE_RADIUS + 50"
    using treesAndRocks_outside [OF s0] by (simp add: initWorld_def generateEnv_def)
  have f0: "filter isObstacle (map (\<lambda>i. streamEntity i seed) [0..<30]) = []"
    by (simp add: filter_empty_conv stream_not_obstacle)
  show "length (filter isObstacle (environment (initWorld seed s))) \<le> 250"
    using treesAndRocks_count [of 0 seed "map (\<lambda>i. streamEntity i seed) [0..<30]"]
    unfolding f0 by (simp add: initWorld_def generateEnv_def)
  show "\<forall>i seed0. fst (obstacleBody i seed0) = None \<longleftrightarrow>
      \<not> dist_vec \<lparr>x_of = seededRandom (seed0 + 1) * CANVAS_WIDTH,
                   y_of = seededRandom (seed0 + 2) * CANVAS_HEIGHT\<rparr> SPAWN_ZONE_CENTER
          > SPAWN_ZONE_RADIUS + 50"
    by (simp add: obstacleBody_def Let_def add.assoc)
qed

lemma seededRandom_0: "seededRandom 0 = 0"
  by (simp add: seededRandom_def)

lemma first_candidate_accepted:
  "dist_vec \<lparr>x_of = seededRandom 0 * CANVAS_WIDTH, y_of = v\<rparr> SPAWN_ZONE_CENTER
     > SPAWN_ZONE_RADIUS + 50"
proof -
  have "sqrt ((1250::real)\<^sup>2 + (v - 1250)\<^sup>2) \<ge> 1250"
    using real_sqrt_sum_squares_ge1 [of 1250 "v - 1250"] by simp
  then show ?thesis
    by (simp add: dist_vec_def seededRandom_0 SPAWN_ZONE_CENTER_def SPAWN_ZONE_RADIUS_def)
qed

lemma first_obstacle_accepted:
  "\<exists>e. obstacleBody 0 (- 1) = (Some e, 1)"
  using first_candidate_accepted [of "seededRandom 1 * CANVAS_HEIGHT"]
  by (simp add: obstacleBody_def Let_def)

lemma first_obstacle_member:
  "the (fst (obstacleBody 0 (- 1))) \<in> set (environment (initWorld (- 1) s))"
proof -
  obtain e where e: "obstacleBody 0 (- 1) = (Some e, 1)"
    using first_obstacle_accepted by blast
  have "treesAndRocks 0 (- 1) env = treesAndRocks 1 1 (env @ [e])" for env
    using e by (simp add: treesAndRocks.simps [of 0])
  then have "e \<in> set (treesAndRocks 0 (- 1) env)" for env
    using treesAndRocks_keeps [of "env @ [e]" 1 1] by auto
  then show ?thesis using e by (simp add: initWorld_def generateEnv_def)
qed

theorem obstacles_outside_sanctuary_witness:
  "\<exists>e. obstacleBody 0 (- 1) = (Some e, 1) \<and>
       e \<in> set (environment (initWorld (- 1) initialState)) \<and>
       isObstacle e \<and> x_of (pos e) = 0 \<and>
       dist_vec (pos e) SPAWN_ZONE_CENTER > SPAWN_ZONE_RADIUS + 50"
proof -
  obtain e where e: "obstacleBody 0 (- 1) = (Some e, 1)"
    using first_obstacle_accepted by blast
  have m: "e \<in> set (environment (initWorld (- 1) initialState))"
    using first_obstacle_member [of initialState] e by simp
  have o: "isObstacle e"
    using obstacleBody_Some [OF e] by simp
  have x: "x_of (pos e) = 0"
    using e first_candidate_accepted [of "seededRandom 1 * CANVAS_HEIGHT"]
    by (auto simp add: obstacleBody_def Let_def seededRandom_0)
  have "dist_vec (pos e) SPAWN_ZONE_CENTER > SPAWN_ZONE_RADIUS + 50"
    using obstacles_outside_sanctuary [of "- 1" initialState] m o by blast
  then show ?thesis using e m o x by blast
qed

section \<open>Order and number of the generator's draws\<close>

text \<open>
  C9 (as amended).  Each iteration advances \<open>currentSeed\<close> by exactly 2, once before each
  position draw.  A placed obstacle takes three more values without advancing the seed,
  evaluated in the order type threshold (\<open>currentSeed + 10\<close>), rotation
  (\<open>currentSeed + 5\<close>), radius (\<open>currentSeed\<close> again for a rock, \<open>currentSeed + 1\<close> for
  a tree); a skipped candidate takes only the two position values.  The recording body
  computes what \<open>obstacleBody\<close> computes.
\<close>

theorem obstacle_draw_order:
  "fst (obstacleBodyLogged i seed0) = obstacleBody i seed0 \<and>
   snd (obstacleBody i seed0) = seed0 + 2 \<and>
   snd (obstacleBodyLogged i seed0) =
     [(PositionX, seed0 + 1), (PositionY, seed0 + 2)] @
     (if accepted seed0 then
        [(TypeThreshold, seed0 + 12), (Rotation, seed0 + 7),
         (Radius, if seededRandom (seed0 + 12) > 0.8 then seed0 + 2 else seed0 + 3)]
      else [])"
  by (simp add: obstacleBodyLogged_def obstacleBody_def draw_def accepted_def Let_def add.assoc)

text \<open>For seed \<open>-1\<close> the first candidate is placed: the type threshold is drawn third, not
  last, and the seed has advanced by 2, not by 5.\<close>

theorem obstacle_draw_order_counterexample:
  "map fst (snd (obstacleBodyLogged 0 (- 1)))
      = [PositionX, PositionY, TypeThreshold, Rotation, Radius] \<and>
   map fst (snd (obstacleBodyLogged 0 (- 1)))
      \<noteq> [PositionX, PositionY, Rotation, Radius, TypeThreshold] \<and>
   snd (fst (obstacleBodyLogged 0 (- 1))) = - 1 + 2 \<and>
   snd (fst (obstacleBodyLogged 0 (- 1))) \<noteq> - 1 + 5"
  using first_candidate_accepted [of "seededRandom 1 * CANVAS_HEIGHT"]
  by (simp add: obstacleBodyLogged_def draw_def Let_def)

theorem obstacle_draw_order_witness:
  "accepted (- 1) \<and>
   snd (obstacleBodyLogged 0 (- 1)) =
     [(PositionX, 0), (PositionY, 1), (TypeThreshold, 11), (Rotation, 6),
      (Radius, if seededRandom 11 > 0.8 then 1 else 2)]"
  using obstacle_draw_order [of 0 "- 1"] first_candidate_accepted [of "seededRandom 1 * CANVAS_HEIGHT"]
  by (simp add: accepted_def)

section \<open>Melee boundaries and the angle difference\<close>

lemma wrapDown_id: "a \<le> pi \<Longrightarrow> wrapDown a = a"
  by (simp add: wrapDown.simps [of a])

lemma wrapUp_id: "- pi \<le> a \<Longrightarrow> wrapUp a = a"
  by (simp add: wrapUp.simps [of a])

lemma wrapDown_le: "wrapDown a \<le> pi"
  by (induction a rule: wrapDown.induct) (simp add: wrapDown.simps)

lemma wrapDown_ge: "- pi \<le> a \<Longrightarrow> - pi \<le> wrapDown a"
proof (induction a rule: wrapDown.induct)
  case (1 a)
  show ?case
  proof (cases "a > pi")
    case True
    then have "- pi \<le> a - pi * 2" by simp
    then show ?thesis using "1.IH" [OF True] True by (simp add: wrapDown.simps [of a])
  next
    case False
    then show ?thesis using "1.prems" by (simp add: wrapDown.simps [of a])
  qed
qed

lemma wrapUp_ge: "- pi \<le> wrapUp a"
  by (induction a rule: wrapUp.induct) (simp add: wrapUp.simps)

lemma wrapUp_le: "a \<le> pi \<Longrightarrow> wrapUp a \<le> pi"
proof (induction a rule: wrapUp.induct)
  case (1 a)
  show ?case
  proof (cases "a < - pi")
    case True
    then have "a + pi * 2 \<le> pi" by simp
    then show ?thesis using "1.IH" [OF True] True by (simp add: wrapUp.simps [of a])
  next
    case False
    then show ?thesis using "1.prems" by (simp add: wrapUp.simps [of a])
  qed
qed

lemma wrapDown_turns: "\<exists>k::int. wrapDown a = a + 2 * pi * of_int k"
proof (induction a rule: wrapDown.induct)
  case (1 a)
  show ?case
  proof (cases "a > pi")
    case True
    then obtain k :: int where "wrapDown (a - pi * 2) = a - pi * 2 + 2 * pi * of_int k"
      using "1.IH" by blast
    then have "wrapDown a = a + 2 * pi * of_int (k - 1)"
      using True by (simp add: wrapDown.simps [of a] algebra_simps)
    then show ?thesis by blast
  next
    case False
    then have "wrapDown a = a + 2 * pi * of_int 0" by (simp add: wrapDown.simps [of a])
    then show ?thesis by blast
  qed
qed

lemma wrapUp_turns: "\<exists>k::int. wrapUp a = a + 2 * pi * of_int k"
proof (induction a rule: wrapUp.induct)
  case (1 a)
  show ?case
  proof (cases "a < - pi")
    case True
    then obtain k :: int where "wrapUp (a + pi * 2) = a + pi * 2 + 2 * pi * of_int k"
      using "1.IH" by blast
    then have "wrapUp a = a + 2 * pi * of_int (k + 1)"
      using True by (simp add: wrapUp.simps [of a] algebra_simps)
    then show ?thesis by blast
  next
    case False
    then have "wrapUp a = a + 2 * pi * of_int 0" by (simp add: wrapUp.simps [of a])
    then show ?thesis by blast
  qed
qed

lemma wrapped_range: "- pi \<le> wrapUp (wrapDown a) \<and> wrapUp (wrapDown a) \<le> pi"
  using wrapUp_ge wrapUp_le [OF wrapDown_le] by blast

lemma wrapped_turns: "\<exists>k::int. wrapUp (wrapDown a) = a + 2 * pi * of_int k"
proof -
  obtain k :: int where k: "wrapDown a = a + 2 * pi * of_int k" using wrapDown_turns by blast
  obtain j :: int where j: "wrapUp (wrapDown a) = wrapDown a + 2 * pi * of_int j"
    using wrapUp_turns by blast
  have "wrapUp (wrapDown a) = a + 2 * pi * of_int (k + j)"
    using k j by (simp add: algebra_simps)
  then show ?thesis by blast
qed

lemma attackEnemy_cases:
  "attackEnemy damage p enemy =
     (if inReach p enemy then
        (let angleToEnemy = atan2 (y_of (pos enemy) - y_of (pos p)) (x_of (pos enemy) - x_of (pos p));
             e2 = enemy\<lparr>hp := hp enemy - damage,
                        pos := \<lparr>x_of = x_of (pos enemy) + cos angleToEnemy * 40,
                                y_of = y_of (pos enemy) + sin angleToEnemy * 40\<rparr>\<rparr>
         in (if hp e2 \<le> 0 \<and> hp e2 + damage > 0 then gainXp 10 p else p, e2))
      else (p, enemy))"
  by (simp add: attackEnemy_def inReach_def angleDiffTo_def dist_vec_def Let_def power2_eq_square)

text \<open>
  C6 (as amended).  \<open>attackEnemy\<close> hits an enemy exactly when it is closer than the attack
  range and the absolute value of the normalised angle difference is below the attack
  angle, and otherwise leaves player and enemy untouched; so an enemy exactly at the attack
  range, or exactly at the attack angle, is excluded: both tests are strict.  The angle
  difference that enters the cone test is the raw difference \<open>atan2 - rotation\<close> after both
  loops: shifted by a whole number of turns into the closed interval \<open>[-\<pi>, \<pi>]\<close>.
\<close>

theorem melee_boundaries_excluded:
  "attackEnemy damage p enemy =
     (if dist_vec (pos enemy) (pos p) < attackRange \<and> \<bar>angleDiffTo p enemy\<bar> < attackAngle then
        (let angleToEnemy = atan2 (y_of (pos enemy) - y_of (pos p)) (x_of (pos enemy) - x_of (pos p));
             e2 = enemy\<lparr>hp := hp enemy - damage,
                        pos := \<lparr>x_of = x_of (pos enemy) + cos angleToEnemy * 40,
                                y_of = y_of (pos enemy) + sin angleToEnemy * 40\<rparr>\<rparr>
         in (if hp e2 \<le> 0 \<and> hp e2 + damage > 0 then gainXp 10 p else p, e2))
      else (p, enemy)) \<and>
   (dist_vec (pos enemy) (pos p) = attackRange \<longrightarrow> attackEnemy damage p enemy = (p, enemy)) \<and>
   (\<bar>angleDiffTo p enemy\<bar> = attackAngle \<longrightarrow> attackEnemy damage p enemy = (p, enemy)) \<and>
   angleDiffTo p enemy =
     wrapUp (wrapDown
       (atan2 (y_of (pos enemy) - y_of (pos p)) (x_of (pos enemy) - x_of (pos p)) - rotation p)) \<and>
   - pi \<le> angleDiffTo p enemy \<and> angleDiffTo p enemy \<le> pi \<and>
   (\<exists>k::int. angleDiffTo p enemy =
       atan2 (y_of (pos enemy) - y_of (pos p)) (x_of (pos enemy) - x_of (pos p)) - rotation p
       + 2 * pi * of_int k)"
proof (intro conjI)
  show "attackEnemy damage p enemy =
     (if dist_vec (pos enemy) (pos p) < attackRange \<and> \<bar>angleDiffTo p enemy\<bar> < attackAngle then
        (let angleToEnemy = atan2 (y_of (pos enemy) - y_of (pos p)) (x_of (pos enemy) - x_of (pos p));
             e2 = enemy\<lparr>hp := hp enemy - damage,
                        pos := \<lparr>x_of = x_of (pos enemy) + cos angleToEnemy * 40,
                                y_of = y_of (pos enemy) + sin angleToEnemy * 40\<rparr>\<rparr>
         in (if hp e2 \<le> 0 \<and> hp e2 + damage > 0 then gainXp 10 p else p, e2))
      else (p, enemy))"
    using attackEnemy_cases [of damage p enemy] unfolding inReach_def .
  show "dist_vec (pos enemy) (pos p) = attackRange \<longrightarrow> attackEnemy damage p enemy = (p, enemy)"
    by (simp add: attackEnemy_cases inReach_def)
  show "\<bar>angleDiffTo p enemy\<bar> = attackAngle \<longrightarrow> attackEnemy damage p enemy = (p, enemy)"
    by (simp add: attackEnemy_cases inReach_def)
  show "angleDiffTo p enemy =
     wrapUp (wrapDown
       (atan2 (y_of (pos enemy) - y_of (pos p)) (x_of (pos enemy) - x_of (pos p)) - rotation p))"
    by (simp add: angleDiffTo_def Let_def)
  show "- pi \<le> angleDiffTo p enemy" "angleDiffTo p enemy \<le> pi"
    using wrapped_range by (simp_all add: angleDiffTo_def Let_def)
  show "\<exists>k::int. angleDiffTo p enemy =
       atan2 (y_of (pos enemy) - y_of (pos p)) (x_of (pos enemy) - x_of (pos p)) - rotation p
       + 2 * pi * of_int k"
    using wrapped_turns by (simp add: angleDiffTo_def Let_def)
qed

lemma atan2_right: "0 < x \<Longrightarrow> atan2 0 x = 0"
  by (simp add: atan2_def)

lemma atan2_left: "x < 0 \<Longrightarrow> atan2 0 x = pi"
  by (simp add: atan2_def)

text \<open>A player facing left (rotation \<open>\<pi>\<close>) and an enemy straight to the right: the
  difference \<open>-\<pi>\<close> passes both loops unchanged, outside \<open>(-\<pi>, \<pi>]\<close>.\<close>

theorem angle_normalisation_counterexample:
  "angleDiffTo (initialPlayer\<lparr>rotation := pi\<rparr>)
      (newSnake ''snake-0-0'' \<lparr>x_of = 1300, y_of = 1250\<rparr>) = - pi \<and>
   \<not> (- pi < angleDiffTo (initialPlayer\<lparr>rotation := pi\<rparr>)
      (newSnake ''snake-0-0'' \<lparr>x_of = 1300, y_of = 1250\<rparr>))"
  by (simp add: angleDiffTo_def initialPlayer_def newSnake_def SPAWN_ZONE_CENTER_def
      atan2_right wrapDown_id wrapUp_id)

theorem melee_boundaries_excluded_witness:
  "dist_vec (pos (newSnake ''snake-0-0'' \<lparr>x_of = 1400, y_of = 1250\<rparr>)) (pos initialPlayer)
      = attackRange \<and>
   attackEnemy 12 initialPlayer (newSnake ''snake-0-0'' \<lparr>x_of = 1400, y_of = 1250\<rparr>)
      = (initialPlayer, newSnake ''snake-0-0'' \<lparr>x_of = 1400, y_of = 1250\<rparr>) \<and>
   \<bar>angleDiffTo (initialPlayer\<lparr>rotation := - 1.5\<rparr>)
       (newSnake ''snake-0-1'' \<lparr>x_of = 1300, y_of = 1250\<rparr>)\<bar> = attackAngle \<and>
   attackEnemy 12 (initialPlayer\<lparr>rotation := - 1.5\<rparr>)
       (newSnake ''snake-0-1'' \<lparr>x_of = 1300, y_of = 1250\<rparr>)
      = (initialPlayer\<lparr>rotation := - 1.5\<rparr>, newSnake ''snake-0-1'' \<lparr>x_of = 1300, y_of = 1250\<rparr>) \<and>
   angleDiffTo (initialPlayer\<lparr>rotation := - 1.4\<rparr>)
       (newSnake ''snake-0-2'' \<lparr>x_of = 1399, y_of = 1250\<rparr>) = 1.4 \<and>
   attackEnemy 12 (initialPlayer\<lparr>rotation := - 1.4\<rparr>)
       (newSnake ''snake-0-2'' \<lparr>x_of = 1399, y_of = 1250\<rparr>)
      = (initialPlayer\<lparr>rotation := - 1.4\<rparr>,
         (newSnake ''snake-0-2'' \<lparr>x_of = 1399, y_of = 1250\<rparr>)
           \<lparr>hp := 48, pos := \<lparr>x_of = 1439, y_of = 1250\<rparr>\<rparr>)"
proof -
  let ?E0 = "newSnake ''snake-0-0'' \<lparr>x_of = 1400, y_of = 1250\<rparr>"
  let ?E1 = "newSnake ''snake-0-1'' \<lparr>x_of = 1300, y_of = 1250\<rparr>"
  let ?E2 = "newSnake ''snake-0-2'' \<lparr>x_of = 1399, y_of = 1250\<rparr>"
  let ?P1 = "initialPlayer\<lparr>rotation := - 1.5\<rparr>"
  let ?P2 = "initialPlayer\<lparr>rotation := - 1.4\<rparr>"
  have d: "dist_vec (pos ?E0) (pos initialPlayer) = attackRange"
    by (simp add: dist_vec_def newSnake_def initialPlayer_def SPAWN_ZONE_CENTER_def attackRange_def)
  have q: "(3::real) / 2 \<le> pi" "(7::real) / 5 \<le> pi" using pi_ge_two by simp_all
  have a: "\<bar>angleDiffTo ?P1 ?E1\<bar> = attackAngle"
    using q by (simp add: angleDiffTo_def initialPlayer_def newSnake_def SPAWN_ZONE_CENTER_def
      atan2_right wrapDown_id wrapUp_id attackAngle_def)
  have w0: "attackEnemy 12 initialPlayer ?E0 = (initialPlayer, ?E0)"
    using d melee_boundaries_excluded [of 12 initialPlayer ?E0] by blast
  have w1: "attackEnemy 12 ?P1 ?E1 = (?P1, ?E1)"
    using a melee_boundaries_excluded [of 12 ?P1 ?E1] by blast
  have a2: "angleDiffTo ?P2 ?E2 = 1.4"
    using q by (simp add: angleDiffTo_def initialPlayer_def newSnake_def SPAWN_ZONE_CENTER_def
      atan2_right wrapDown_id wrapUp_id)
  have d2: "dist_vec (pos ?E2) (pos ?P2) = 149"
    by (simp add: dist_vec_def newSnake_def initialPlayer_def SPAWN_ZONE_CENTER_def)
  have t2: "atan2 (y_of (pos ?E2) - y_of (pos ?P2)) (x_of (pos ?E2) - x_of (pos ?P2)) = 0"
    by (simp add: newSnake_def initialPlayer_def SPAWN_ZONE_CENTER_def atan2_right)
  have "attackEnemy 12 ?P2 ?E2 =
     (if dist_vec (pos ?E2) (pos ?P2) < attackRange \<and> \<bar>angleDiffTo ?P2 ?E2\<bar> < attackAngle then
        (let angleToEnemy = atan2 (y_of (pos ?E2) - y_of (pos ?P2)) (x_of (pos ?E2) - x_of (pos ?P2));
             e2 = ?E2\<lparr>hp := hp ?E2 - 12,
                        pos := \<lparr>x_of = x_of (pos ?E2) + cos angleToEnemy * 40,
                                y_of = y_of (pos ?E2) + sin angleToEnemy * 40\<rparr>\<rparr>
         in (if hp e2 \<le> 0 \<and> hp e2 + 12 > 0 then gainXp 10 ?P2 else ?P2, e2))
      else (?P2, ?E2))"
    using melee_boundaries_excluded [of 12 ?P2 ?E2] by blast
  then have w2: "attackEnemy 12 ?P2 ?E2 =
      (?P2, ?E2\<lparr>hp := 48, pos := \<lparr>x_of = 1439, y_of = 1250\<rparr>\<rparr>)"
    unfolding d2 a2 t2 by (simp add: attackRange_def attackAngle_def Let_def newSnake_def)
  show ?thesis using d a w0 w1 a2 w2 by blast
qed

section \<open>Hits needed to kill a snake\<close>

lemma gainXp_keeps_aim: "pos (gainXp a p) = pos p \<and> rotation (gainXp a p) = rotation p"
  by (simp add: gainXp_def Let_def)

lemma attackEnemy_keeps_aim:
  "pos (fst (attackEnemy damage p enemy)) = pos p \<and>
   rotation (fst (attackEnemy damage p enemy)) = rotation p"
  by (simp add: attackEnemy_cases Let_def gainXp_keeps_aim)

lemma inReach_aim: "pos p' = pos p \<Longrightarrow> rotation p' = rotation p \<Longrightarrow> inReach p' e = inReach p e"
  by (simp add: inReach_def angleDiffTo_def)

lemma attackEnemy_hit_hp:
  "inReach p enemy \<Longrightarrow> hp (snd (attackEnemy damage p enemy)) = hp enemy - damage"
  by (simp add: attackEnemy_cases Let_def)

lemma attackAll_length: "length (snd (attackAll damage p es)) = length es"
proof (induction es arbitrary: p)
  case Nil
  then show ?case by simp
next
  case (Cons e es)
  obtain p1 e1 where a: "attackEnemy damage p e = (p1, e1)" by (cases "attackEnemy damage p e")
  obtain p2 es2 where b: "attackAll damage p1 es = (p2, es2)" by (cases "attackAll damage p1 es")
  show ?case using Cons.IH [of p1] a b by simp
qed

lemma attackAll_nth:
  "i < length es \<Longrightarrow>
   \<exists>p'. pos p' = pos p \<and> rotation p' = rotation p \<and>
        snd (attackAll damage p es) ! i = snd (attackEnemy damage p' (es ! i))"
proof (induction es arbitrary: p i)
  case Nil
  then show ?case by simp
next
  case (Cons e es)
  obtain p1 e1 where a: "attackEnemy damage p e = (p1, e1)" by (cases "attackEnemy damage p e")
  obtain p2 es2 where b: "attackAll damage p1 es = (p2, es2)" by (cases "attackAll damage p1 es")
  have aim: "pos p1 = pos p \<and> rotation p1 = rotation p"
    using attackEnemy_keeps_aim [of damage p e] a by simp
  show ?case
  proof (cases i)
    case 0
    then show ?thesis using a b by auto
  next
    case (Suc j)
    then have "j < length es" using Cons.prems by simp
    then obtain p' where "pos p' = pos p1 \<and> rotation p' = rotation p1 \<and>
        snd (attackAll damage p1 es) ! j = snd (attackEnemy damage p' (es ! j))"
      using Cons.IH by blast
    then show ?thesis using a b aim Suc by auto
  qed
qed

lemma handleAttack_hit:
  assumes "\<not> gameOver s" "attackCooldown (player s) \<le> 0" "i < length (enemies s)"
    "inReach (player s) (enemies s ! i)"
  shows "hp (enemies (handleAttack s) ! i) =
           hp (enemies s ! i) - (if orElse (level (player s)) 1 \<ge> 2 then 60 else 12)"
proof -
  let ?p1 = "(player s)\<lparr>isAttacking := True, attackCooldown := 25\<rparr>"
  let ?d = "if orElse (level (player s)) 1 \<ge> 2 then 60 else 12 :: real"
  obtain p' where p': "pos p' = pos ?p1" "rotation p' = rotation ?p1"
    "snd (attackAll ?d ?p1 (enemies s)) ! i = snd (attackEnemy ?d p' (enemies s ! i))"
    using attackAll_nth [OF assms(3), of ?p1 ?d] by blast
  have "inReach p' (enemies s ! i)"
    using inReach_aim [of p' "player s" "enemies s ! i"] p' assms(4) by simp
  then have "hp (snd (attackAll ?d ?p1 (enemies s)) ! i) = hp (enemies s ! i) - ?d"
    using p'(3) attackEnemy_hit_hp by simp
  moreover have "enemies (handleAttack s) = snd (attackAll ?d ?p1 (enemies s))"
    using assms(1,2) by (simp add: handleAttack_def Let_def split: prod.splits)
  ultimately show ?thesis by simp
qed

lemma strikes_hp:
  "strikes damage ps e = Some e' \<Longrightarrow> hp e' = hp e - damage * real (length ps)"
proof (induction ps arbitrary: e)
  case Nil
  then show ?case by simp
next
  case (Cons p ps)
  have r: "inReach p e" using Cons.prems by (simp split: if_splits)
  then have "strikes damage ps (snd (attackEnemy damage p e)) = Some e'"
    using Cons.prems by simp
  then have "hp e' = hp (snd (attackEnemy damage p e)) - damage * real (length ps)"
    using Cons.IH by blast
  then show ?case using attackEnemy_hit_hp [OF r, of damage] by (simp add: algebra_simps)
qed

text \<open>
  C5. A snake in reach with 60 health: \<open>handleAttack\<close> by a player of level 2 or more
  leaves it 0 health, by a player of level 1 it leaves 48.  One strike of 60 brings a
  60-health snake to 0 or below; after strikes of 12, each with the snake in reach, its
  health is \<open>60 - 12 n\<close>, which is 0 or below exactly from the fifth strike on.
\<close>

theorem melee_kill_counts:
  "(\<not> gameOver s \<and> attackCooldown (player s) \<le> 0 \<and> i < length (enemies s) \<and>
    inReach (player s) (enemies s ! i) \<and> hp (enemies s ! i) = 60 \<longrightarrow>
      hp (enemies (handleAttack s) ! i) = (if orElse (level (player s)) 1 \<ge> 2 then 0 else 48)) \<and>
   (hp enemy = 60 \<and> strikes 60 [p] enemy = Some e1 \<longrightarrow> hp e1 \<le> 0) \<and>
   (hp enemy = 60 \<and> strikes 12 ps enemy = Some e2 \<longrightarrow>
      hp e2 = 60 - 12 * real (length ps) \<and> (hp e2 \<le> 0 \<longleftrightarrow> 5 \<le> length ps))"
proof (intro conjI impI)
  assume "\<not> gameOver s \<and> attackCooldown (player s) \<le> 0 \<and> i < length (enemies s) \<and>
    inReach (player s) (enemies s ! i) \<and> hp (enemies s ! i) = 60"
  then show "hp (enemies (handleAttack s) ! i) = (if orElse (level (player s)) 1 \<ge> 2 then 0 else 48)"
    using handleAttack_hit [of s i] by simp
next
  assume "hp enemy = 60 \<and> strikes 60 [p] enemy = Some e1"
  then show "hp e1 \<le> 0" using strikes_hp [of 60 "[p]" enemy e1] by simp
next
  assume a: "hp enemy = 60 \<and> strikes 12 ps enemy = Some e2"
  then show h: "hp e2 = 60 - 12 * real (length ps)"
    using strikes_hp [of 12 ps enemy e2] by simp
  show "(hp e2 \<le> 0) = (5 \<le> length ps)"
    unfolding h by auto
qed


lemma aligned_inReach:
  assumes "y_of (pos e) = y_of (pos p)" "rotation p = 0"
    "x_of (pos p) < x_of (pos e)" "x_of (pos e) < x_of (pos p) + 150"
  shows "inReach p e"
proof -
  have "dist_vec (pos e) (pos p) = \<bar>x_of (pos e) - x_of (pos p)\<bar>"
    using assms(1) by (simp add: dist_vec_def)
  then have d: "dist_vec (pos e) (pos p) < attackRange"
    using assms(3,4) by (simp add: attackRange_def)
  have "angleDiffTo p e = 0"
    using assms(1,2,3) by (simp add: angleDiffTo_def atan2_right wrapDown_id wrapUp_id)
  then show ?thesis using d by (simp add: inReach_def attackAngle_def)
qed

lemma aligned_hit:
  assumes "y_of (pos e) = y_of (pos p)" "rotation p = 0"
    "x_of (pos p) < x_of (pos e)" "x_of (pos e) < x_of (pos p) + 150"
  shows "snd (attackEnemy d p e) =
           e\<lparr>hp := hp e - d, pos := \<lparr>x_of = x_of (pos e) + 40, y_of = y_of (pos e)\<rparr>\<rparr>"
  using aligned_inReach [OF assms] assms(1,3)
  by (simp add: attackEnemy_cases Let_def atan2_right)

lemma strike_aligned:
  assumes "y_of (pos e) = 1250" "x < x_of (pos e)" "x_of (pos e) < x + 150"
  shows "strikes d (attackerAt x # ps) e =
           strikes d ps (e\<lparr>hp := hp e - d, pos := \<lparr>x_of = x_of (pos e) + 40, y_of = 1250\<rparr>\<rparr>)"
proof -
  have a: "y_of (pos e) = y_of (pos (attackerAt x))" "rotation (attackerAt x) = 0"
    "x_of (pos (attackerAt x)) < x_of (pos e)" "x_of (pos e) < x_of (pos (attackerAt x)) + 150"
    using assms by (simp_all add: attackerAt_def initialPlayer_def)
  show ?thesis
    using aligned_inReach [OF a] aligned_hit [OF a, of d] assms(1) by simp
qed

theorem melee_kill_counts_witness:
  "hp (enemies (handleAttack
         (initialState\<lparr>enemies := [newSnake ''snake-0-0'' \<lparr>x_of = 1350, y_of = 1250\<rparr>]\<rparr>)) ! 0) = 48 \<and>
   hp (enemies (handleAttack
         (initialState\<lparr>player := initialPlayer\<lparr>level := Some 2\<rparr>,
            enemies := [newSnake ''snake-0-0'' \<lparr>x_of = 1350, y_of = 1250\<rparr>]\<rparr>)) ! 0) = 0 \<and>
   map_option hp (strikes 60 [attackerAt 1250]
      (newSnake ''snake-0-0'' \<lparr>x_of = 1350, y_of = 1250\<rparr>)) = Some 0 \<and>
   map_option hp (strikes 12
      [attackerAt 1250, attackerAt 1290, attackerAt 1330, attackerAt 1370, attackerAt 1410]
      (newSnake ''snake-0-0'' \<lparr>x_of = 1350, y_of = 1250\<rparr>)) = Some 0 \<and>
   map_option hp (strikes 12
      [attackerAt 1250, attackerAt 1290, attackerAt 1330, attackerAt 1370]
      (newSnake ''snake-0-0'' \<lparr>x_of = 1350, y_of = 1250\<rparr>)) = Some 12"
proof -
  let ?e = "newSnake ''snake-0-0'' \<lparr>x_of = 1350, y_of = 1250\<rparr>"
  let ?s = "initialState\<lparr>enemies := [?e]\<rparr>"
  let ?s2 = "initialState\<lparr>player := initialPlayer\<lparr>level := Some 2\<rparr>, enemies := [?e]\<rparr>"
  have r1: "inReach (player ?s) (enemies ?s ! 0)"
    by (rule aligned_inReach)
       (simp_all add: initialState_def initialPlayer_def newSnake_def SPAWN_ZONE_CENTER_def)
  have r2: "inReach (player ?s2) (enemies ?s2 ! 0)"
    by (rule aligned_inReach)
       (simp_all add: initialState_def initialPlayer_def newSnake_def SPAWN_ZONE_CENTER_def)
  have pre1: "\<not> gameOver ?s \<and> attackCooldown (player ?s) \<le> 0 \<and> 0 < length (enemies ?s) \<and>
     hp (enemies ?s ! 0) = 60 \<and> orElse (level (player ?s)) 1 < 2"
    by (simp add: initialState_def initialPlayer_def newSnake_def orElse_def)
  have pre2: "\<not> gameOver ?s2 \<and> attackCooldown (player ?s2) \<le> 0 \<and> 0 < length (enemies ?s2) \<and>
     hp (enemies ?s2 ! 0) = 60 \<and> orElse (level (player ?s2)) 1 \<ge> 2"
    by (simp add: initialState_def initialPlayer_def newSnake_def orElse_def)
  have k1: "strikes 60 [attackerAt 1250] ?e = Some (?e\<lparr>hp := 0, pos := \<lparr>x_of = 1390, y_of = 1250\<rparr>\<rparr>)"
    by (simp add: strike_aligned newSnake_def del: strikes.simps(2))
  have k5: "strikes 12
      [attackerAt 1250, attackerAt 1290, attackerAt 1330, attackerAt 1370, attackerAt 1410] ?e
      = Some (?e\<lparr>hp := 0, pos := \<lparr>x_of = 1550, y_of = 1250\<rparr>\<rparr>)"
    by (simp add: strike_aligned newSnake_def del: strikes.simps(2))
  have k4: "strikes 12
      [attackerAt 1250, attackerAt 1290, attackerAt 1330, attackerAt 1370] ?e
      = Some (?e\<lparr>hp := 12, pos := \<lparr>x_of = 1510, y_of = 1250\<rparr>\<rparr>)"
    by (simp add: strike_aligned newSnake_def del: strikes.simps(2))
  have h0: "hp ?e = 60" by (simp add: newSnake_def)
  show ?thesis
    using melee_kill_counts [of ?s 0 ?e "attackerAt 1250" "?e\<lparr>hp := 0, pos := \<lparr>x_of = 1390, y_of = 1250\<rparr>\<rparr>"
        "[attackerAt 1250, attackerAt 1290, attackerAt 1330, attackerAt 1370, attackerAt 1410]"
        "?e\<lparr>hp := 0, pos := \<lparr>x_of = 1550, y_of = 1250\<rparr>\<rparr>"]
      melee_kill_counts [of ?s2 0 ?e "attackerAt 1250" "?e\<lparr>hp := 0, pos := \<lparr>x_of = 1390, y_of = 1250\<rparr>\<rparr>"
        "[attackerAt 1250, attackerAt 1290, attackerAt 1330, attackerAt 1370]"
        "?e\<lparr>hp := 12, pos := \<lparr>x_of = 1510, y_of = 1250\<rparr>\<rparr>"]
      r1 r2 pre1 pre2 k1 k4 k5 h0
    by simp
qed

section \<open>Directions: \<open>Math.atan2\<close> with \<open>Math.cos\<close> and \<open>Math.sin\<close>\<close>












section \<open>Hostile behaviour: fleeing, chasing, idling\<close>


lemma dist_vec_same_y:
  "dist_vec \<lparr>x_of = a, y_of = c\<rparr> \<lparr>x_of = b, y_of = c\<rparr> = \<bar>a - b\<bar>"
  by (simp add: dist_vec_def)









section \<open>Ticks evaluated on the sample states\<close>

lemma movePlayer_idle: "movePlayer idleSolo p = p\<lparr>walkCycle := 0\<rparr>"
  by (simp add: movePlayer_def inputDir_def idleSolo_def Let_def)

lemma tickCooldown_ready: "attackCooldown p = 0 \<Longrightarrow> tickCooldown p = p"
  by (simp add: tickCooldown_def)

lemma healFromStream_dry: "healFromStream [] p rs = Some (p, rs)"
  by (simp add: healFromStream_def nearStream_def)

lemma boundAndCollide_no_env: "boundAndCollide [] ent = clampEntity ent"
  by (simp add: boundAndCollide_def)

lemma snakeStep_bite:
  "snakeStep \<lparr>x_of = 1250, y_of = 1250\<rparr> None
      (newSnake ''snake-0-0'' \<lparr>x_of = 1270, y_of = 1250\<rparr>) h = (bitingSnake, h - 10)"
  by (simp add: snakeStep_def Let_def newSnake_def bitingSnake_def dist_vec_same_y atan2_left)

lemma snakeStep_after_bite:
  "snakeStep \<lparr>x_of = 1250, y_of = 1250\<rparr> None bitingSnake h = (creepingSnake, h)"
  by (simp add: snakeStep_def Let_def newSnake_def bitingSnake_def creepingSnake_def
      dist_vec_same_y atan2_left)

lemma snakes_alive: "hp bitingSnake = 60" "hp creepingSnake = 60"
  by (simp_all add: bitingSnake_def creepingSnake_def newSnake_def)

lemma snakes_inside: "clampEntity bitingSnake = bitingSnake" "clampEntity creepingSnake = creepingSnake"
  by (simp_all add: clampEntity_def bitingSnake_def creepingSnake_def newSnake_def
      CANVAS_WIDTH_def CANVAS_HEIGHT_def)

lemma tick_bitten:
  "updatePhysics idleSolo now (bittenState h) rs = Some (bittenAfter h, rs)"
proof -
  have p1: "tickCooldown (movePlayer idleSolo (player (bittenState h))) = initialPlayer\<lparr>hp := h\<rparr>"
    by (simp add: movePlayer_idle tickCooldown_ready bittenState_def initialPlayer_def)
  have h1: "healFromStream (environment (bittenState h)) (initialPlayer\<lparr>hp := h\<rparr>) rs
              = Some (initialPlayer\<lparr>hp := h\<rparr>, rs)"
    by (simp add: bittenState_def initialState_def healFromStream_dry)
  have s_eq: "(bittenState h)\<lparr>player := initialPlayer\<lparr>hp := h\<rparr>\<rparr> = bittenState h"
    by (simp add: bittenState_def initialState_def)
  have e: "enemyLogic idleSolo now (bittenState h) rs = Some (bittenAfter h, rs)"
    apply (simp add: enemyLogic_def idleSolo_def bittenState_def bittenAfter_def initialState_def Let_def)
    apply (simp add: initialPlayer_def SPAWN_ZONE_CENTER_def snakeStep_bite snakes_alive)
    done
  have c: "followCamera (collideAll (bittenAfter h)) = bittenAfter h"
    apply (simp add: collideAll_def boundAndCollide_no_env snakes_inside
        bittenAfter_def bittenState_def initialState_def)
    apply (simp add: followCamera_def clampEntity_def lerp_def initialPlayer_def
        SPAWN_ZONE_CENTER_def CANVAS_WIDTH_def CANVAS_HEIGHT_def)
    done
  show ?thesis
    unfolding updatePhysics_def Let_def p1 h1
    by (simp only: option.case prod.case s_eq e c)
qed

section \<open>What a tick does to health and positions\<close>

lemma spawnFrom_enemies_only:
  "spawnFrom i count now s rs = Some (s2, rs') \<Longrightarrow> s2\<lparr>enemies := es\<rparr> = s\<lparr>enemies := es\<rparr>"
proof (induction i count now s rs rule: spawnFrom.induct)
  case (1 i count now s rs)
  show ?case
  proof (cases "i < count")
    case False
    then show ?thesis using "1.prems" by (simp add: spawnFrom.simps [of i])
  next
    case True
    from "1.prems" True obtain p0 rs0 where r: "randomPos rs = Some (p0, rs0)"
      by (auto simp add: spawnFrom.simps [of i] split: option.splits)
    from "1.prems" True r obtain p rs1 where t: "retryPos (pos (player s)) p0 rs0 = Some (p, rs1)"
      by (auto simp add: spawnFrom.simps [of i] split: option.splits)
    let ?s1 = "s\<lparr>enemies := enemies s @
                 [newSnake (''snake-'' @ showNat (now i) @ ''-'' @ showNat i) p]\<rparr>"
    have sp: "spawnFrom (i + 1) count now ?s1 rs1 = Some (s2, rs')"
      using "1.prems" True r t by (simp add: spawnFrom.simps [of i])
    have "s2\<lparr>enemies := es\<rparr> = ?s1\<lparr>enemies := es\<rparr>"
      by (rule "1.IH" [OF True r refl t refl sp])
    then show ?thesis by simp
  qed
qed

lemma snakeStep_keeps_health:
  "hp (fst (snakeStep playerPos fr snake playerHp)) = hp snake \<and>
   maxHp (fst (snakeStep playerPos fr snake playerHp)) = maxHp snake \<and>
   snd (snakeStep playerPos fr snake playerHp) \<le> playerHp"
  by (auto simp add: snakeStep_def Let_def split: option.splits)

lemma snakesStep_keeps_health:
  "map hp (fst (snakesStep playerPos fr es playerHp)) = map hp es \<and>
   map maxHp (fst (snakesStep playerPos fr es playerHp)) = map maxHp es \<and>
   snd (snakesStep playerPos fr es playerHp) \<le> playerHp"
proof (induction es arbitrary: playerHp)
  case Nil
  then show ?case by simp
next
  case (Cons e es)
  obtain e1 h1 where a: "snakeStep playerPos fr e playerHp = (e1, h1)"
    by (cases "snakeStep playerPos fr e playerHp")
  obtain es2 h2 where b: "snakesStep playerPos fr es h1 = (es2, h2)"
    by (cases "snakesStep playerPos fr es h1")
  have "hp e1 = hp e \<and> maxHp e1 = maxHp e \<and> h1 \<le> playerHp"
    using snakeStep_keeps_health [of playerPos fr e playerHp] a by simp
  moreover have "map hp es2 = map hp es \<and> map maxHp es2 = map maxHp es \<and> h2 \<le> h1"
    using Cons.IH [of h1] b by simp
  ultimately show ?case using a b by simp
qed

lemma health_of_member:
  assumes "map hp es' = map hp es" "map maxHp es' = map maxHp es" "e' \<in> set es'"
  shows "\<exists>e \<in> set es. hp e' = hp e \<and> maxHp e' = maxHp e"
proof -
  from assms(3) obtain i where i: "i < length es'" "es' ! i = e'"
    by (auto simp add: in_set_conv_nth)
  have l: "length es' = length es" using assms(1) by (rule map_eq_imp_length_eq)
  have "hp (es' ! i) = hp (es ! i)"
    using assms(1) i(1) l by (metis nth_map)
  moreover have "maxHp (es' ! i) = maxHp (es ! i)"
    using assms(2) i(1) l by (metis nth_map)
  ultimately show ?thesis using i l by (metis nth_mem)
qed

lemma enemyLogic_result:
  assumes "enemyLogic inp now s rs = Some (s1, rs1)"
  shows "environment s1 = environment s" "friend s1 = friend s" "gameOver s1 = gameOver s"
    "score s1 = score s" "camera s1 = camera s"
    "hp (player s1) \<le> hp (player s)" "maxHp (player s1) = maxHp (player s)"
    "\<forall>e' \<in> set (enemies s1). \<exists>e \<in> set (enemies s). hp e' = hp e \<and> maxHp e' = maxHp e"
    "\<not> isMultiplayer inp \<or> isHost inp \<Longrightarrow> \<forall>e' \<in> set (enemies s1). 0 < hp e'"
proof -
  obtain es php where sn: "snakesStep (pos (player s)) (friend s) (enemies s) (hp (player s)) = (es, php)"
    by (cases "snakesStep (pos (player s)) (friend s) (enemies s) (hp (player s))")
  let ?t = "s\<lparr>player := (player s)\<lparr>hp := php\<rparr>, enemies := es\<rparr>"
  have k: "map hp es = map hp (enemies s) \<and> map maxHp es = map maxHp (enemies s) \<and> php \<le> hp (player s)"
    using snakesStep_keeps_health [of "pos (player s)" "friend s" "enemies s" "hp (player s)"] sn
    by simp
  have r: "s1 = (if \<not> isMultiplayer inp \<or> isHost inp
                 then ?t\<lparr>enemies := filter (\<lambda>e. hp e > 0) es\<rparr> else s)"
  proof (cases "\<not> isMultiplayer inp \<or> isHost inp")
    case False
    then show ?thesis using assms by (simp add: enemyLogic_def)
  next
    case True
    show ?thesis
    proof (cases "length (filter (\<lambda>e. hp e > 0) es) < length es \<and> length (filter (\<lambda>e. hp e > 0) es) < 5")
      case False
      then show ?thesis using assms True sn by (auto simp add: enemyLogic_def Let_def)
    next
      case sp: True
      from assms True sn sp obtain s2 where
        s2: "spawnSnakes 3 now ?t rs = Some (s2, rs1)"
        and e: "s1 = s2\<lparr>enemies := filter (\<lambda>e. hp e > 0) es\<rparr>"
        by (auto simp add: enemyLogic_def Let_def split: option.splits)
      have "s2\<lparr>enemies := filter (\<lambda>e. hp e > 0) es\<rparr> = ?t\<lparr>enemies := filter (\<lambda>e. hp e > 0) es\<rparr>"
        using s2 unfolding spawnSnakes_def by (rule spawnFrom_enemies_only)
      then show ?thesis using e True by simp
    qed
  qed
  show "environment s1 = environment s" "friend s1 = friend s" "gameOver s1 = gameOver s"
    "score s1 = score s" "camera s1 = camera s"
    using r by (simp_all split: if_splits)
  show "hp (player s1) \<le> hp (player s)" "maxHp (player s1) = maxHp (player s)"
    using r k by (simp_all split: if_splits)
  show "\<forall>e' \<in> set (enemies s1). \<exists>e \<in> set (enemies s). hp e' = hp e \<and> maxHp e' = maxHp e"
  proof
    fix e' assume m: "e' \<in> set (enemies s1)"
    show "\<exists>e \<in> set (enemies s). hp e' = hp e \<and> maxHp e' = maxHp e"
    proof (cases "\<not> isMultiplayer inp \<or> isHost inp")
      case False
      then show ?thesis using r m by auto
    next
      case True
      then have "e' \<in> set es" using r m by simp
      then show ?thesis using health_of_member [of es "enemies s" e'] k by simp
    qed
  qed
  show "\<not> isMultiplayer inp \<or> isHost inp \<Longrightarrow> \<forall>e' \<in> set (enemies s1). 0 < hp e'"
    using r by simp
qed










lemma updatePhysics_phases:
  assumes "updatePhysics inp now s rs = Some (s', rs')"
  obtains p2 rs1 s1 where
    "healFromStream (environment s) (tickCooldown (movePlayer inp (player s))) rs = Some (p2, rs1)"
    "enemyLogic inp now (s\<lparr>player := p2\<rparr>) rs1 = Some (s1, rs')"
    "s' = followCamera (collideAll s1)"
  using assms by (auto simp add: updatePhysics_def Let_def split: option.splits)






section \<open>Player death and the scheduler\<close>

lemma tick_after_death:
  "updatePhysics idleSolo now (bittenAfter 10) rs = Some (deadAfter, rs)"
proof -
  have p1: "tickCooldown (movePlayer idleSolo (player (bittenAfter 10))) = initialPlayer\<lparr>hp := 0\<rparr>"
    by (simp add: movePlayer_idle tickCooldown_ready bittenAfter_def bittenState_def initialPlayer_def)
  have h1: "healFromStream (environment (bittenAfter 10)) (initialPlayer\<lparr>hp := 0\<rparr>) rs
              = Some (initialPlayer\<lparr>hp := 0\<rparr>, rs)"
    by (simp add: bittenAfter_def bittenState_def initialState_def healFromStream_dry)
  have s_eq: "(bittenAfter 10)\<lparr>player := initialPlayer\<lparr>hp := 0\<rparr>\<rparr> = bittenAfter 10"
    by (simp add: bittenAfter_def bittenState_def initialState_def)
  have e: "enemyLogic idleSolo now (bittenAfter 10) rs = Some (deadAfter, rs)"
    apply (simp add: enemyLogic_def idleSolo_def bittenState_def bittenAfter_def deadAfter_def
        initialState_def Let_def)
    apply (simp add: initialPlayer_def SPAWN_ZONE_CENTER_def snakeStep_after_bite snakes_alive)
    done
  have c: "followCamera (collideAll deadAfter) = deadAfter"
    apply (simp add: collideAll_def boundAndCollide_no_env snakes_inside
        deadAfter_def bittenState_def initialState_def)
    apply (simp add: followCamera_def clampEntity_def lerp_def initialPlayer_def
        SPAWN_ZONE_CENTER_def CANVAS_WIDTH_def CANVAS_HEIGHT_def)
    done
  show ?thesis
    unfolding updatePhysics_def Let_def p1 h1
    by (simp only: option.case prod.case s_eq e c)
qed

lemma updatePhysics_keeps_gameOver:
  assumes "updatePhysics inp now s rs = Some (s', rs')"
  shows "gameOver s' = gameOver s"
proof -
  from assms obtain p2 rs1 s1 where
    e: "enemyLogic inp now (s\<lparr>player := p2\<rparr>) rs1 = Some (s1, rs')"
    and f: "s' = followCamera (collideAll s1)"
    by (rule updatePhysics_phases)
  show ?thesis unfolding f using enemyLogic_result(3) [OF e]
    by (simp add: followCamera_def collideAll_def)
qed

lemma handleAttack_keeps_gameOver: "gameOver (handleAttack s) = gameOver s"
  by (simp add: handleAttack_def Let_def split: prod.splits)

lemma onData_keeps_gameOver: "gameOver (onData host data s) = gameOver s"
  by (simp add: onData_def Let_def split: Message.splits option.splits)

lemma gameLoop_stops_when_over:
  "gameOver s \<Longrightarrow>
     gameLoop inp now s hud rs =
       Some \<lparr>state_of = s, hud_of = hud\<lparr>hud_gameOver := True\<rparr>, sent = [],
             rendered = False, scheduled = False, tape = rs\<rparr>"
  by (simp add: gameLoop_def)

lemma gameLoop_keeps_gameOver:
  "gameLoop inp now s hud rs = Some f \<Longrightarrow> gameOver (state_of f) = gameOver s"
  by (auto simp add: gameLoop_def updatePhysics_keeps_gameOver split: if_splits option.splits list.splits)

text \<open>
  C1.  Nothing assigns \<open>gameOver\<close>: a tick, an attack and a received message all keep
  it, and \<open>gameLoop\<close> stops only once it is set.  So a player with 10 health bitten once
  ends the tick with 0 health and \<open>gameOver\<close> still false, and the next call of
  \<open>gameLoop\<close> simulates again (the snake moves on) and schedules a further frame.
\<close>

theorem player_death_leaves_gameOver_unset:
  "gameOver (bittenState 10) = False \<and>
   hp (player (bittenState 10)) = 10 \<and>
   gameLoop idleSolo (\<lambda>i. 0) (bittenState 10) initialHud [0.5] =
     Some \<lparr>state_of = bittenAfter 10, hud_of = initialHud, sent = [],
           rendered = True, scheduled = True, tape = []\<rparr> \<and>
   hp (player (bittenAfter 10)) = 0 \<and>
   gameOver (bittenAfter 10) = False \<and>
   gameLoop idleSolo (\<lambda>i. 0) (bittenAfter 10) initialHud [0.5] =
     Some \<lparr>state_of = deadAfter, hud_of = initialHud, sent = [],
           rendered = True, scheduled = True, tape = []\<rparr> \<and>
   deadAfter \<noteq> bittenAfter 10"
proof -
  have a: "updatePhysics idleSolo (\<lambda>i. 0) (bittenState 10) [0.5] = Some (bittenAfter 10, [0.5])"
    by (rule tick_bitten)
  have b: "updatePhysics idleSolo (\<lambda>i. 0) (bittenAfter 10) [0.5] = Some (deadAfter, [0.5])"
    by (rule tick_after_death)
  have g: "gameOver (bittenState 10) = False" "gameOver (bittenAfter 10) = False"
    by (simp_all add: bittenAfter_def bittenState_def initialState_def)
  have o: "outgoing idleSolo s = []" for s
    by (simp add: outgoing_def idleSolo_def)
  have l1: "gameLoop idleSolo (\<lambda>i. 0) (bittenState 10) initialHud [0.5] =
     Some \<lparr>state_of = bittenAfter 10, hud_of = initialHud, sent = [],
           rendered = True, scheduled = True, tape = []\<rparr>"
    unfolding gameLoop_def a g by (simp add: o)
  have l2: "gameLoop idleSolo (\<lambda>i. 0) (bittenAfter 10) initialHud [0.5] =
     Some \<lparr>state_of = deadAfter, hud_of = initialHud, sent = [],
           rendered = True, scheduled = True, tape = []\<rparr>"
    unfolding gameLoop_def b g by (simp add: o)
  have h: "hp (player (bittenState 10)) = 10" "hp (player (bittenAfter 10)) = 0"
    by (simp_all add: bittenAfter_def bittenState_def)
  have "walkCycle (hd (enemies deadAfter)) \<noteq> walkCycle (hd (enemies (bittenAfter 10)))"
    by (simp add: deadAfter_def bittenAfter_def bitingSnake_def creepingSnake_def)
  then have n: "deadAfter \<noteq> bittenAfter 10" by auto
  show ?thesis using g l1 l2 h n by simp
qed

end
